theory Spec2Isabelle
  imports Complex_Main "HOL-Library.Word"
begin

section \<open>E-signature utilities: data model\<close>

text \<open>
  The development embeds the e-signature helpers of \<^verbatim>\<open>esignature-utils.ts\<close> and the signer
  validation of \<^verbatim>\<open>signer-setup-modal.tsx\<close>.

  Conventions of the embedding.
  \<^item> A TypeScript \<^verbatim>\<open>number\<close> is a finite IEEE double, given by the \<^typ>\<open>real\<close> it denotes.
    The arithmetic of the embedder rounds every result to the nearest double
    (\<open>round_double\<close> below). NaN, the infinities and the negative zero are not modelled,
    and the exponent range is not bounded.
  \<^item> An optional property (\<^verbatim>\<open>signerId?: string\<close>) is an \<^typ>\<open>'a option\<close>, \<^verbatim>\<open>undefined\<close> being
    \<^term>\<open>None\<close>.
  \<^item> A string is a \<^typ>\<open>string\<close> of 8-bit characters; white space is the ASCII white space.
\<close>

datatype field_type = SIGNATURE | INITIALS | DATE | TEXT | CHECKBOX

record SignatureFieldData =
  f_id :: string
  f_type :: field_type
  f_pageNumber :: real
  f_x :: real
  f_y :: real
  f_width :: real
  f_height :: real
  f_required :: bool
  f_signerId :: "string option"
  f_value :: "string option"
  f_signatureType :: "string option"

text \<open>
  The argument of the coordinate validator is a \<^verbatim>\<open>Partial\<close> field: each of the four
  geometry properties may be absent.
\<close>

record PartialField =
  p_x :: "real option"
  p_y :: "real option"
  p_width :: "real option"
  p_height :: "real option"

subsection \<open>JavaScript truthiness and strings\<close>

text \<open>\<^verbatim>\<open>!n\<close> for an optional number: true for \<^verbatim>\<open>undefined\<close> and for \<^verbatim>\<open>0\<close>.\<close>

definition falsy_num :: "real option \<Rightarrow> bool" where
  "falsy_num n = (case n of None \<Rightarrow> True | Some v \<Rightarrow> v = 0)"

text \<open>\<^verbatim>\<open>!s\<close> for an optional string: true for \<^verbatim>\<open>undefined\<close> and for the empty string.\<close>

definition falsy_str :: "string option \<Rightarrow> bool" where
  "falsy_str s = (case s of None \<Rightarrow> True | Some v \<Rightarrow> v = [])"

definition is_space :: "char \<Rightarrow> bool" where
  "is_space c = (c = CHR '' '' \<or> c = CHR 0x09 \<or> c = CHR 0x0A \<or> c = CHR 0x0B
                 \<or> c = CHR 0x0C \<or> c = CHR 0x0D)"

text \<open>\<^verbatim>\<open>String.prototype.trim\<close>: white space removed at both ends.\<close>

definition trim :: "string \<Rightarrow> string" where
  "trim s = rev (dropWhile is_space (rev (dropWhile is_space s)))"

section \<open>Field validator\<close>

text \<open>
  \<^verbatim>\<open>validateFieldCoordinates\<close>, one \<^verbatim>\<open>if (...) return false\<close> of the source per line. The
  comparisons after the first line are only reached when all four properties are present.
\<close>

definition validateFieldCoordinates :: "PartialField \<Rightarrow> bool" where
  "validateFieldCoordinates field =
     (if falsy_num (p_x field) \<or> falsy_num (p_y field)
         \<or> falsy_num (p_width field) \<or> falsy_num (p_height field) then False
      else case (p_x field, p_y field, p_width field, p_height field) of
        (Some x, Some y, Some w, Some h) \<Rightarrow>
          if x < 0 \<or> x > 100 then False
          else if y < 0 \<or> y > 100 then False
          else if w \<le> 0 \<or> w > 100 then False
          else if h \<le> 0 \<or> h > 100 then False
          else if x + w > 100 then False
          else if y + h > 100 then False
          else True
      | _ \<Rightarrow> False)"

section \<open>Signing-session queries\<close>

text \<open>
  The callback of \<^verbatim>\<open>every\<close> in \<^verbatim>\<open>areAllRequiredFieldsSigned\<close>:
  \<^verbatim>\<open>field.value && field.value.trim() !== ''\<close>.
\<close>

definition value_filled :: "string option \<Rightarrow> bool" where
  "value_filled v = (case v of None \<Rightarrow> False | Some s \<Rightarrow> s \<noteq> [] \<and> trim s \<noteq> [])"

text \<open>
  The last conjunct of the filter of \<^verbatim>\<open>getNextRequiredField\<close>:
  \<^verbatim>\<open>!field.value || field.value.trim() === ''\<close>.
\<close>

definition value_blank :: "string option \<Rightarrow> bool" where
  "value_blank v = (case v of None \<Rightarrow> True | Some s \<Rightarrow> s = [] \<or> trim s = [])"

text \<open>
  The signer test shared by both functions: \<^verbatim>\<open>!signerId || field.signerId === signerId\<close>.
\<close>

definition signer_matches :: "string option \<Rightarrow> SignatureFieldData \<Rightarrow> bool" where
  "signer_matches signerId field = (falsy_str signerId \<or> f_signerId field = signerId)"

definition areAllRequiredFieldsSigned :: "SignatureFieldData list \<Rightarrow> string option \<Rightarrow> bool" where
  "areAllRequiredFieldsSigned flds signerId =
     (let requiredFields =
            filter (\<lambda>field. f_required field \<and> signer_matches signerId field) flds
      in list_all (\<lambda>field. value_filled (f_value field)) requiredFields)"

text \<open>
  The comparator handed to \<^verbatim>\<open>sort\<close>: page difference first, then the difference of the
  vertical positions.
\<close>

definition compareFields :: "SignatureFieldData \<Rightarrow> SignatureFieldData \<Rightarrow> real" where
  "compareFields a b =
     (if f_pageNumber a \<noteq> f_pageNumber b then f_pageNumber a - f_pageNumber b
      else f_y a - f_y b)"

text \<open>
  \<^verbatim>\<open>Array.prototype.sort\<close> with a comparator is a stable sort: an element moves in front of
  another only when the comparator is positive for the pair in the old order. It is modelled
  as insertion from the right, which keeps equal elements in their order.
\<close>

fun insert_by :: "('a \<Rightarrow> 'a \<Rightarrow> real) \<Rightarrow> 'a \<Rightarrow> 'a list \<Rightarrow> 'a list" where
  "insert_by cmp a [] = [a]"
| "insert_by cmp a (b # bs) = (if cmp a b \<le> 0 then a # b # bs else b # insert_by cmp a bs)"

definition sort_by :: "('a \<Rightarrow> 'a \<Rightarrow> real) \<Rightarrow> 'a list \<Rightarrow> 'a list" where
  "sort_by cmp xs = foldr (insert_by cmp) xs []"

text \<open>The filter of \<^verbatim>\<open>getNextRequiredField\<close>: the outstanding required fields in scope.\<close>

definition outstandingRequired ::
  "SignatureFieldData list \<Rightarrow> string option \<Rightarrow> SignatureFieldData list" where
  "outstandingRequired flds signerId =
     filter (\<lambda>field. f_required field \<and> signer_matches signerId field
                        \<and> value_blank (f_value field)) flds"

text \<open>\<^verbatim>\<open>requiredFields[0] || null\<close>: an array element is an object, hence truthy.\<close>

definition getNextRequiredField ::
  "SignatureFieldData list \<Rightarrow> string option \<Rightarrow> SignatureFieldData option" where
  "getNextRequiredField flds signerId =
     (case sort_by compareFields (outstandingRequired flds signerId) of
        [] \<Rightarrow> None
      | first # _ \<Rightarrow> Some first)"

text \<open>
  The signing view (\<^verbatim>\<open>public-signing-view.tsx\<close>) selects a signer's fields on its own:
  \<^verbatim>\<open>getMyFields\<close> keeps a field when \<^verbatim>\<open>!field.signerId || field.signerId === session.signer.id\<close>.
\<close>

definition getMyFields :: "SignatureFieldData list \<Rightarrow> string \<Rightarrow> SignatureFieldData list" where
  "getMyFields allFields signer_id =
     filter (\<lambda>field. falsy_str (f_signerId field) \<or> f_signerId field = Some signer_id) allFields"

subsection \<open>The signer's fields as the specification words them\<close>

text \<open>
  Following the words of the specification (section 4.5), not the code:
  \<open>fieldsForSigner(signerId)\<close> are the fields whose signer is \<open>signerId\<close> or empty, and
  \<open>requiredOutstanding(signerId)\<close> are those of them that are required and have an empty
  value.
\<close>

definition spec_fieldsForSigner ::
  "SignatureFieldData list \<Rightarrow> string \<Rightarrow> SignatureFieldData list" where
  "spec_fieldsForSigner flds signerId =
     filter (\<lambda>field. f_signerId field = Some signerId \<or> falsy_str (f_signerId field)) flds"

definition spec_requiredOutstanding ::
  "SignatureFieldData list \<Rightarrow> string \<Rightarrow> SignatureFieldData list" where
  "spec_requiredOutstanding flds signerId =
     filter (\<lambda>field. f_required field \<and> value_blank (f_value field))
       (spec_fieldsForSigner flds signerId)"

section \<open>JavaScript numbers\<close>

subsection \<open>Rounding to the nearest double\<close>

text \<open>
  The binary exponent of a positive number: \<open>ilog2 a = e\<close> when \<open>2\<^sup>e \<le> a < 2\<^sup>e\<^sup>+\<^sup>1\<close>. It is
  found by halving a number from 2 on and by doubling a number below 1.
\<close>

function ilog2_up :: "real \<Rightarrow> int" where
  "ilog2_up a = (if 2 \<le> a then ilog2_up (a / 2) + 1 else 0)"
  by pat_completeness auto
termination
proof (relation "measure (\<lambda>a. nat \<lfloor>a\<rfloor>)")
  show "wf (measure (\<lambda>a::real. nat \<lfloor>a\<rfloor>))" by simp
next
  fix a :: real
  assume "2 \<le> a"
  then have "\<lfloor>a / 2\<rfloor> < \<lfloor>a\<rfloor>" by linarith
  moreover have "0 < \<lfloor>a\<rfloor>" using \<open>2 \<le> a\<close> by linarith
  ultimately show "(a / 2, a) \<in> measure (\<lambda>a. nat \<lfloor>a\<rfloor>)" by simp
qed

function ilog2_down :: "real \<Rightarrow> int" where
  "ilog2_down a = (if 0 < a \<and> a < 1 then ilog2_down (a * 2) - 1 else 0)"
  by pat_completeness auto
termination
proof (relation "measure (\<lambda>a. nat \<lceil>1 / a\<rceil>)")
  show "wf (measure (\<lambda>a::real. nat \<lceil>1 / a\<rceil>))" by simp
next
  fix a :: real
  assume a: "0 < a \<and> a < 1"
  define t where "t = 1 / a"
  have t: "1 < t" using a by (simp add: t_def)
  have half: "1 / (a * 2) = t / 2" by (simp add: t_def)
  have n: "2 \<le> \<lceil>t\<rceil>" using t by linarith
  define c :: real where "c = of_int \<lceil>t\<rceil>"
  have c1: "t \<le> c" unfolding c_def by (rule le_of_int_ceiling)
  have c2: "2 \<le> c" unfolding c_def using t by simp
  have "t / 2 \<le> c - 1" using c1 c2 by linarith
  then have "t / 2 \<le> of_int (\<lceil>t\<rceil> - 1)" unfolding c_def by simp
  then have "\<lceil>t / 2\<rceil> \<le> \<lceil>t\<rceil> - 1" by (simp only: ceiling_le_iff)
  then have "\<lceil>t / 2\<rceil> < \<lceil>t\<rceil>" by simp
  then have "\<lceil>1 / (a * 2)\<rceil> < \<lceil>1 / a\<rceil>" unfolding half unfolding t_def .
  moreover have "0 < \<lceil>t\<rceil>" using n by simp
  then have "0 < \<lceil>1 / a\<rceil>" unfolding t_def .
  ultimately show "(a * 2, a) \<in> measure (\<lambda>a. nat \<lceil>1 / a\<rceil>)" by simp
qed

declare ilog2_up.simps [simp del] ilog2_down.simps [simp del]

definition ilog2 :: "real \<Rightarrow> int" where
  "ilog2 a = (if 1 \<le> a then ilog2_up a else ilog2_down a)"

definition pow2 :: "int \<Rightarrow> real" where
  "pow2 e = (if 0 \<le> e then 2 ^ nat e else 1 / 2 ^ nat (- e))"

text \<open>Rounding to the nearest integer, a tie going to the even one.\<close>

definition round_even :: "real \<Rightarrow> int" where
  "round_even m =
     (let f = \<lfloor>m\<rfloor>; r = m - of_int f
      in if r < 1 / 2 then f else if 1 / 2 < r then f + 1 else if even f then f else f + 1)"

text \<open>
  A double has a significand of 53 bits: a number with binary exponent \<open>e\<close> is rounded to
  the nearest multiple of \<open>2\<^sup>e\<^sup>-\<^sup>5\<^sup>2\<close>, a tie going to the even multiple.
\<close>

definition round_double :: "real \<Rightarrow> real" where
  "round_double x =
     (if x = 0 then 0
      else let u = pow2 (ilog2 \<bar>x\<bar> - 52)
           in sgn x * of_int (round_even (\<bar>x\<bar> / u)) * u)"

text \<open>The operators \<^verbatim>\<open>/\<close>, \<^verbatim>\<open>*\<close>, \<^verbatim>\<open>-\<close> and \<^verbatim>\<open>+\<close> on doubles.\<close>

definition js_div :: "real \<Rightarrow> real \<Rightarrow> real" where
  "js_div a b = round_double (a / b)"

definition js_mul :: "real \<Rightarrow> real \<Rightarrow> real" where
  "js_mul a b = round_double (a * b)"

definition js_sub :: "real \<Rightarrow> real \<Rightarrow> real" where
  "js_sub a b = round_double (a - b)"

definition js_add :: "real \<Rightarrow> real \<Rightarrow> real" where
  "js_add a b = round_double (a + b)"

subsection \<open>Numbers as property keys\<close>

text \<open>
  A number used as a property key is converted to a string. An integer of magnitude below
  \<open>2\<^sup>5\<^sup>3\<close> is written with all its decimal digits, a minus sign in front when it is
  negative. The digits that \<^verbatim>\<open>Number::toString\<close> generates for any other number (fractions,
  the exponent notation from \<open>10\<^sup>2\<^sup>1\<close> on) are left to the environment of the embedder.
\<close>

definition digit_char :: "nat \<Rightarrow> char" where
  "digit_char d = ''0123456789'' ! d"

function showNat :: "nat \<Rightarrow> string" where
  "showNat n = (if n < 10 then [digit_char n] else showNat (n div 10) @ [digit_char (n mod 10)])"
  by pat_completeness auto
termination
  by (relation "measure (\<lambda>n. n)") auto

declare showNat.simps [simp del]

definition showInt :: "int \<Rightarrow> string" where
  "showInt k = (if k < 0 then CHR ''-'' # showNat (nat (- k)) else showNat (nat k))"

definition is_safe_integer :: "real \<Rightarrow> bool" where
  "is_safe_integer n = (n = of_int \<lfloor>n\<rfloor> \<and> \<bar>n\<bar> < 2 ^ 53)"

text \<open>
  \<^verbatim>\<open>parseInt\<close> with one argument: white space is skipped, a sign is read, the radix is 16
  after \<^verbatim>\<open>0x\<close> and 10 otherwise, and the longest run of digits is the number; without a
  digit the result is NaN, here \<^term>\<open>None\<close>. The result is the integer that the digits
  denote; the source compares it with an array length only, and rounding it to a double
  would not change the outcome of those comparisons.
\<close>

definition digit_value :: "char \<Rightarrow> nat" where
  "digit_value c =
     (let n = (of_char c :: nat)
      in if 48 \<le> n \<and> n \<le> 57 then n - 48
         else if 97 \<le> n \<and> n \<le> 122 then n - 87
         else if 65 \<le> n \<and> n \<le> 90 then n - 55
         else 36)"

definition is_digit :: "nat \<Rightarrow> char \<Rightarrow> bool" where
  "is_digit radix c = (digit_value c < radix)"

definition digits_value :: "nat \<Rightarrow> string \<Rightarrow> nat" where
  "digits_value radix ds = foldl (\<lambda>acc c. acc * radix + digit_value c) 0 ds"

definition parseInt :: "string \<Rightarrow> int option" where
  "parseInt s =
     (let s1 = dropWhile is_space s;
          negative = (take 1 s1 = ''-'');
          s2 = (if take 1 s1 = ''-'' \<or> take 1 s1 = ''+'' then drop 1 s1 else s1);
          radix = (if take 2 s2 = ''0x'' \<or> take 2 s2 = ''0X'' then 16 else 10);
          s3 = (if radix = 16 then drop 2 s2 else s2);
          ds = takeWhile (is_digit radix) s3
      in if ds = [] then None
         else Some (if negative then - int (digits_value radix ds)
                    else int (digits_value radix ds)))"

section \<open>PDF embedder\<close>

text \<open>
  \<^verbatim>\<open>embedSignaturesInPDF\<close> drives things that are not part of the repository: the
  \<^verbatim>\<open>pdf-lib\<close> package, the browser's \<^verbatim>\<open>atob\<close> and the digit generation of
  \<^verbatim>\<open>Number::toString\<close>. They are the parameters of the model, collected in one record. A call that can throw returns an option or a flag.
  \<^item> \<^verbatim>\<open>load\<close>: \<^verbatim>\<open>PDFDocument.load\<close>; \<^term>\<open>None\<close> when the bytes do not parse.
  \<^item> \<^verbatim>\<open>getPages\<close>: the pages of the parsed document, each with the size \<^verbatim>\<open>getSize()\<close> returns.
  \<^item> \<^verbatim>\<open>atob\<close>: base64 decoding; \<^term>\<open>None\<close> when it throws. The result is the byte of every
    character of the binary string, which is what \<^verbatim>\<open>dataURLToBytes\<close> copies out.
  \<^item> \<^verbatim>\<open>embedPng\<close>, \<^verbatim>\<open>embedJpg\<close>: whether the image bytes are accepted.
  \<^item> \<^verbatim>\<open>canEncode\<close>: whether \<^verbatim>\<open>drawText\<close> can encode a text in a standard font; it throws
    when it cannot.
  \<^item> \<^verbatim>\<open>save\<close>: the serializer, applied to the parsed document and the operations made on it.
  \<^item> \<^verbatim>\<open>toStringOther\<close>: the string of a number that is not an integer below \<open>2\<^sup>5\<^sup>3\<close>.

  The document under construction is the parsed document together with the log of the
  mutating calls made so far, in order.
\<close>

type_synonym bytes = "8 word list"

datatype standard_font = Helvetica | HelveticaBold

datatype image_format = Png | Jpg

text \<open>
  The mutating calls. Pages are given by their 0-based index. The arguments are, in order:
  \<^item> \<open>DrawImage\<close>: page, image format and bytes, \<^verbatim>\<open>x\<close>, \<^verbatim>\<open>y\<close>, \<^verbatim>\<open>width\<close>, \<^verbatim>\<open>height\<close>;
  \<^item> \<open>DrawText\<close>: page, text, \<^verbatim>\<open>x\<close>, \<^verbatim>\<open>y\<close>, \<^verbatim>\<open>size\<close>, font, \<^verbatim>\<open>maxWidth\<close> when given;
  \<^item> \<open>DrawRectangle\<close>: page, \<^verbatim>\<open>x\<close>, \<^verbatim>\<open>y\<close>, \<^verbatim>\<open>width\<close>, \<^verbatim>\<open>height\<close>.
  The colour is black and the border width 1 in every call of the source.
\<close>

datatype draw_op =
    EmbedImage image_format bytes
  | EmbedFont standard_font
  | DrawImage nat image_format bytes real real real real
  | DrawText nat string real real real standard_font "real option"
  | DrawRectangle nat real real real real

record 'd pdf_env =
  load :: "bytes \<Rightarrow> 'd option"
  getPages :: "'d \<Rightarrow> (real \<times> real) list"
  atob :: "string \<Rightarrow> bytes option"
  embedPng :: "bytes \<Rightarrow> bool"
  embedJpg :: "bytes \<Rightarrow> bool"
  canEncode :: "standard_font \<Rightarrow> string \<Rightarrow> bool"
  save :: "'d \<Rightarrow> draw_op list \<Rightarrow> bytes option"
  toStringOther :: "real \<Rightarrow> string"

datatype error = Error string

subsection \<open>String helpers\<close>

definition startsWith :: "string \<Rightarrow> string \<Rightarrow> bool" where
  "startsWith s p = (take (length p) s = p)"

fun str_includes :: "string \<Rightarrow> string \<Rightarrow> bool" where
  "str_includes [] sub = (sub = [])"
| "str_includes (c # cs) sub = (startsWith (c # cs) sub \<or> str_includes cs sub)"

text \<open>
  \<^verbatim>\<open>dataURL.split(',')[1]\<close>: the text between the first and the second comma, \<^verbatim>\<open>undefined\<close>
  when there is no comma.
\<close>

definition split_comma_1 :: "string \<Rightarrow> string option" where
  "split_comma_1 dataURL =
     (case dropWhile (\<lambda>c. c \<noteq> CHR '','') dataURL of
        [] \<Rightarrow> None
      | _ # rest \<Rightarrow> Some (takeWhile (\<lambda>c. c \<noteq> CHR '','') rest))"

text \<open>\<^verbatim>\<open>atob(undefined)\<close> decodes the text \<^verbatim>\<open>undefined\<close>.\<close>

definition dataURLToBytes :: "'d pdf_env \<Rightarrow> string \<Rightarrow> bytes option" where
  "dataURLToBytes env dataURL =
     atob env (case split_comma_1 dataURL of None \<Rightarrow> ''undefined'' | Some base64 \<Rightarrow> base64)"

text \<open>
  The text drawn in a ticked box: the three characters U+00E2, U+0153 and U+201C of the
  string literal in the source, as the bytes of their UTF-8 encoding.
\<close>

definition checkmark :: string where
  "checkmark = [CHR 0xC3, CHR 0xA2, CHR 0xC5, CHR 0x93, CHR 0xE2, CHR 0x80, CHR 0x9C]"

subsection \<open>Stamping one field\<close>

text \<open>
  The first three statements of the inner \<^verbatim>\<open>try\<close>: decode the data URL and embed the image.
  \<^term>\<open>None\<close> when one of them throws.
\<close>

definition embedSignatureImage :: "'d pdf_env \<Rightarrow> string \<Rightarrow> (image_format \<times> bytes) option" where
  "embedSignatureImage env v =
     (case dataURLToBytes env v of
        None \<Rightarrow> None
      | Some imageBytes \<Rightarrow>
          if str_includes v ''png''
          then (if embedPng env imageBytes then Some (Png, imageBytes) else None)
          else (if embedJpg env imageBytes then Some (Jpg, imageBytes) else None))"

text \<open>
  The body of the inner loop for one field on the page with index \<open>pageNum\<close> and size
  \<open>(pageWidth, pageHeight)\<close>. The result is the extended log of operations, or \<^term>\<open>None\<close>
  when an exception leaves the loop. The literals \<^verbatim>\<open>0.6\<close>, \<^verbatim>\<open>0.8\<close> and \<^verbatim>\<open>0.1\<close> denote the
  nearest doubles; \<^verbatim>\<open>Math.min\<close> does not round.
\<close>

definition stampField ::
  "'d pdf_env \<Rightarrow> nat \<Rightarrow> real \<times> real \<Rightarrow> SignatureFieldData \<Rightarrow> draw_op list
     \<Rightarrow> draw_op list option" where
  "stampField env pageNum pageSize signature ops =
     (case pageSize of (pageWidth, pageHeight) \<Rightarrow>
      if falsy_str (f_value signature) then Some ops
      else case f_value signature of
        None \<Rightarrow> Some ops
      | Some v \<Rightarrow>
         (let x = js_mul (js_div (f_x signature) 100) pageWidth;
              y = js_sub (js_sub pageHeight (js_mul (js_div (f_y signature) 100) pageHeight))
                    (js_mul (js_div (f_height signature) 100) pageHeight);
              width = js_mul (js_div (f_width signature) 100) pageWidth;
              height = js_mul (js_div (f_height signature) 100) pageHeight
          in
          if f_type signature = SIGNATURE \<or> f_type signature = INITIALS then
            if startsWith v ''data:image/'' then
              (case embedSignatureImage env v of
                 Some (fmt, imageBytes) \<Rightarrow>
                   Some (ops @ [EmbedImage fmt imageBytes,
                                DrawImage pageNum fmt imageBytes x y width height])
               | None \<Rightarrow>
                   if canEncode env HelveticaBold ''[SIGNATURE]''
                   then Some (ops @ [EmbedFont HelveticaBold,
                                     DrawText pageNum ''[SIGNATURE]'' x
                                       (js_add y (js_div height 2)) 12 HelveticaBold None])
                   else None)
            else Some ops
          else if f_type signature = TEXT \<or> f_type signature = DATE then
            (let fontSize = min (js_mul height (round_double 0.6)) 12 in
             if canEncode env Helvetica v
             then Some (ops @ [EmbedFont Helvetica,
                               DrawText pageNum v x
                                 (js_sub (js_add y (js_div height 2)) (js_div fontSize 2))
                                 fontSize Helvetica (Some width)])
             else None)
          else if f_type signature = CHECKBOX then
            (let checkSize = js_mul (min width height) (round_double 0.8);
                 ops1 = ops @ [EmbedFont HelveticaBold,
                               DrawRectangle pageNum x y checkSize checkSize]
             in
             if v = ''checked'' then
               if canEncode env HelveticaBold checkmark
               then Some (ops1 @ [DrawText pageNum checkmark
                                    (js_add x (js_mul checkSize (round_double 0.1)))
                                    (js_add y (js_mul checkSize (round_double 0.1)))
                                    (js_mul checkSize (round_double 0.8)) HelveticaBold None])
               else None
             else Some ops1)
          else Some ops))"

text \<open>The inner loop: the fields of one page, in order; an exception ends it.\<close>

fun stampPage ::
  "'d pdf_env \<Rightarrow> nat \<Rightarrow> real \<times> real \<Rightarrow> SignatureFieldData list \<Rightarrow> draw_op list
     \<Rightarrow> draw_op list option" where
  "stampPage env pageNum pageSize [] ops = Some ops"
| "stampPage env pageNum pageSize (signature # rest) ops =
     (case stampField env pageNum pageSize signature ops of
        None \<Rightarrow> None
      | Some ops' \<Rightarrow> stampPage env pageNum pageSize rest ops')"

subsection \<open>Grouping by page\<close>

text \<open>The property key of a number.\<close>

definition numberToString :: "'d pdf_env \<Rightarrow> real \<Rightarrow> string" where
  "numberToString env n =
     (if is_safe_integer n then showInt \<lfloor>n\<rfloor> else toStringOther env n)"

text \<open>
  \<^verbatim>\<open>signaturesByPage\<close> is an object whose property keys are the strings of the page
  numbers. The model keeps its properties in insertion order; one step of the \<^verbatim>\<open>reduce\<close>
  appends the field to the group under its key, creating the group when the key is new.
\<close>

fun group_push ::
  "string \<Rightarrow> SignatureFieldData \<Rightarrow> (string \<times> SignatureFieldData list) list
     \<Rightarrow> (string \<times> SignatureFieldData list) list" where
  "group_push key sig [] = [(key, [sig])]"
| "group_push key sig ((k, grp) # acc) =
     (if k = key then (k, grp @ [sig]) # acc else (k, grp) # group_push key sig acc)"

definition signaturesByPage ::
  "'d pdf_env \<Rightarrow> SignatureFieldData list \<Rightarrow> (string \<times> SignatureFieldData list) list" where
  "signaturesByPage env signatures =
     foldl (\<lambda>acc sig. group_push (numberToString env (f_pageNumber sig)) sig acc) []
       signatures"

text \<open>
  \<^verbatim>\<open>Object.entries\<close> lists the keys that are array indices (the decimal numerals of the
  integers from 0 to \<open>2\<^sup>3\<^sup>2 - 2\<close>) first, in ascending numeric order, and the other keys
  after them in insertion order.
\<close>

definition index_of_key :: "string \<Rightarrow> int" where
  "index_of_key key = (case parseInt key of None \<Rightarrow> 0 | Some k \<Rightarrow> k)"

definition is_array_index :: "string \<Rightarrow> bool" where
  "is_array_index key =
     (case parseInt key of
        None \<Rightarrow> False
      | Some k \<Rightarrow> 0 \<le> k \<and> k < 2 ^ 32 - 1 \<and> showInt k = key)"

definition object_entries :: "(string \<times> 'v) list \<Rightarrow> (string \<times> 'v) list" where
  "object_entries obj =
     sort_key (\<lambda>e. index_of_key (fst e)) (filter (\<lambda>e. is_array_index (fst e)) obj)
       @ filter (\<lambda>e. \<not> is_array_index (fst e)) obj"

subsection \<open>The embedding\<close>

text \<open>
  The outer loop. \<open>pageNum\<close> is \<^verbatim>\<open>parseInt\<close> of the key minus one; an entry whose page does
  not exist is passed over by \<^verbatim>\<open>continue\<close>. When \<^verbatim>\<open>parseInt\<close> gives NaN both comparisons
  are false, \<^verbatim>\<open>pages[NaN]\<close> is \<^verbatim>\<open>undefined\<close> and the call of \<^verbatim>\<open>getSize\<close> throws.
\<close>

fun stampEntries ::
  "'d pdf_env \<Rightarrow> (real \<times> real) list \<Rightarrow> (string \<times> SignatureFieldData list) list
     \<Rightarrow> draw_op list \<Rightarrow> draw_op list option" where
  "stampEntries env pages [] ops = Some ops"
| "stampEntries env pages ((pageNumStr, pageSignatures) # rest) ops =
     (case parseInt pageNumStr of
        None \<Rightarrow> None
      | Some n \<Rightarrow>
          (let pageNum = n - 1 in
           if pageNum < 0 \<or> pageNum \<ge> int (length pages) then stampEntries env pages rest ops
           else case stampPage env (nat pageNum) (pages ! nat pageNum) pageSignatures ops of
                  None \<Rightarrow> None
                | Some ops' \<Rightarrow> stampEntries env pages rest ops'))"

text \<open>The keys whose entries the outer loop passes over, for a document of \<open>n\<close> pages.\<close>

definition skipped_key :: "nat \<Rightarrow> string \<Rightarrow> bool" where
  "skipped_key n key =
     (case parseInt key of None \<Rightarrow> False | Some k \<Rightarrow> k - 1 < 0 \<or> k - 1 \<ge> int n)"

text \<open>The operations made on a parsed document by the two loops.\<close>

definition embedLog ::
  "'d pdf_env \<Rightarrow> 'd \<Rightarrow> SignatureFieldData list \<Rightarrow> draw_op list option" where
  "embedLog env pdfDoc signatures =
     stampEntries env (getPages env pdfDoc) (object_entries (signaturesByPage env signatures))
       []"

text \<open>
  The whole function. Whatever is thrown inside the outer \<^verbatim>\<open>try\<close> is replaced by the one
  error of the \<^verbatim>\<open>catch\<close>.
\<close>

definition embedFailed :: error where
  "embedFailed = Error ''Failed to embed signatures in PDF''"

definition embedSignaturesInPDF ::
  "'d pdf_env \<Rightarrow> bytes \<Rightarrow> SignatureFieldData list \<Rightarrow> error + bytes" where
  "embedSignaturesInPDF env pdfBytes signatures =
     (case load env pdfBytes of
        None \<Rightarrow> Inl embedFailed
      | Some pdfDoc \<Rightarrow>
          (case embedLog env pdfDoc signatures of
             None \<Rightarrow> Inl embedFailed
           | Some ops \<Rightarrow>
               (case save env pdfDoc ops of
                  None \<Rightarrow> Inl embedFailed
                | Some out \<Rightarrow> Inr out)))"

text \<open>The fields held by the groups of an object.\<close>

definition grouped :: "(string \<times> SignatureFieldData list) list \<Rightarrow> SignatureFieldData set" where
  "grouped obj = (\<Union>e \<in> set obj. set (snd e))"

section \<open>Signer validation\<close>

datatype signer_status = PENDING | SENT | VIEWED | SIGNED | DECLINED

record Signer =
  s_id :: "string option"
  signerEmail :: string
  signerName :: string
  signerRole :: "string option"
  signingOrder :: int
  contactId :: "string option"
  s_status :: "signer_status option"

text \<open>\<^verbatim>\<open>toLowerCase\<close> on ASCII text: the letters A to Z are moved to a to z.\<close>

definition lower_char :: "char \<Rightarrow> char" where
  "lower_char c =
     (let n = (of_char c :: nat) in if 65 \<le> n \<and> n \<le> 90 then char_of (n + 32) else c)"

definition toLowerCase :: "string \<Rightarrow> string" where
  "toLowerCase s = map lower_char s"

text \<open>
  The pattern \<^verbatim>\<open>/^[^\s@]+@[^\s@]+\.[^\s@]+$/\<close>. A character of the class \<^verbatim>\<open>[^\s@]\<close> is
  neither white space nor the at sign. The first run of class characters cannot step over
  an at sign, so it is the longest such prefix; what follows the at sign has to consist of
  class characters only and to have a dot that is neither its first nor its last character.
\<close>

definition email_class :: "char \<Rightarrow> bool" where
  "email_class c = (\<not> is_space c \<and> c \<noteq> CHR ''@'')"

definition emailRegex_test :: "string \<Rightarrow> bool" where
  "emailRegex_test s =
     (takeWhile email_class s \<noteq> [] \<and>
      (case dropWhile email_class s of
         [] \<Rightarrow> False
       | c # domain \<Rightarrow>
           c = CHR ''@'' \<and> list_all email_class domain \<and> CHR ''.'' \<in> set (butlast (tl domain))))"

text \<open>The pattern read as a regular expression: three non-empty runs around an at sign and a dot.\<close>

definition email_pattern :: "string \<Rightarrow> bool" where
  "email_pattern s =
     (\<exists>a b c. s = a @ [CHR ''@''] @ b @ [CHR ''.''] @ c \<and> a \<noteq> [] \<and> b \<noteq> [] \<and> c \<noteq> []
         \<and> list_all email_class a \<and> list_all email_class b \<and> list_all email_class c)"

text \<open>The \<^verbatim>\<open>for\<close> loop of \<^verbatim>\<open>validateSigners\<close>: the first signer that fails a check decides.\<close>

fun checkSigners :: "Signer list \<Rightarrow> string option" where
  "checkSigners [] = None"
| "checkSigners (signer # rest) =
     (if signerEmail signer = [] \<or> signerName signer = []
      then Some ''All signers must have name and email''
      else if \<not> emailRegex_test (signerEmail signer)
      then Some ''All email addresses must be valid''
      else checkSigners rest)"

text \<open>The size of \<^verbatim>\<open>new Set(emails)\<close> is the number of different emails.\<close>

definition validateSigners :: "Signer list \<Rightarrow> string option" where
  "validateSigners signers =
     (case checkSigners signers of
        Some message \<Rightarrow> Some message
      | None \<Rightarrow>
          (let emails = map (\<lambda>s. toLowerCase (signerEmail s)) signers;
               uniqueEmails = remdups emails
           in if length emails \<noteq> length uniqueEmails
              then Some ''Duplicate email addresses are not allowed''
              else None))"

text \<open>
  \<^verbatim>\<open>handleSave\<close> up to the point where it starts to send requests. The requests (one
  \<^verbatim>\<open>POST\<close> for every signer without an id, then the \<^verbatim>\<open>PATCH\<close> of the signing order) are
  the parameter \<open>persist\<close>; the left result is the message shown when nothing is sent.
\<close>

definition handleSave ::
  "(Signer list \<Rightarrow> bool \<Rightarrow> 'r) \<Rightarrow> Signer list \<Rightarrow> bool \<Rightarrow> string + 'r" where
  "handleSave persist signers sequentialSigning =
     (case validateSigners signers of
        Some validationError \<Rightarrow> Inl validationError
      | None \<Rightarrow>
          if signers = [] then Inl ''At least one signer is required''
          else Inr (persist (filter (\<lambda>s. falsy_str (s_id s)) signers) sequentialSigning))"

text \<open>A signer that passes the checks of the loop.\<close>

definition wellFormedSigner :: "Signer \<Rightarrow> bool" where
  "wellFormedSigner s =
     (signerEmail s \<noteq> [] \<and> signerName s \<noteq> [] \<and> emailRegex_test (signerEmail s))"

section \<open>Sample data\<close>

text \<open>
  An environment to evaluate the embedder on. Every byte stream that starts with \<^verbatim>\<open>%PDF\<close>
  parses to a document of one US Letter page; the serializer writes the header, the number
  of pages and the number of operations. The one base64 text it decodes is that of the PNG
  signature; an image is accepted by its signature bytes; a standard font encodes ASCII.
  Of the numbers that are not integers below \<open>2\<^sup>5\<^sup>3\<close> it knows the strings of \<open>10\<^sup>2\<^sup>1\<close>
  and of \<open>1.5\<close>, which \<^verbatim>\<open>Number::toString\<close> writes \<^verbatim>\<open>1e+21\<close> and \<^verbatim>\<open>1.5\<close>.
\<close>

definition pdfHeader :: bytes where
  "pdfHeader = [0x25, 0x50, 0x44, 0x46]"

definition pngMagic :: bytes where
  "pngMagic = [0x89, 0x50, 0x4E, 0x47]"

definition testEnv :: "(real \<times> real) list pdf_env" where
  "testEnv =
     \<lparr> load = (\<lambda>bs. if take 4 bs = pdfHeader then Some [(612, 792)] else None),
       getPages = (\<lambda>d. d),
       atob = (\<lambda>s. if s = ''iVBORw=='' then Some pngMagic else None),
       embedPng = (\<lambda>b. take 4 b = pngMagic),
       embedJpg = (\<lambda>b. take 2 b = [0xFF, 0xD8]),
       canEncode = (\<lambda>font s. list_all (\<lambda>c. (of_char c :: nat) < 128) s),
       save = (\<lambda>d ops. Some (pdfHeader @ [of_nat (length d), of_nat (length ops)])),
       toStringOther = (\<lambda>n. if n = 10 ^ 21 then ''1e+21'' else if n = 3 / 2 then ''1.5''
                             else []) \<rparr>"

definition samplePdf :: bytes where
  "samplePdf = pdfHeader @ [0x2D, 0x31, 0x2E, 0x37]"

definition letterPage :: "real \<times> real" where
  "letterPage = (612, 792)"

definition sampleField :: SignatureFieldData where
  "sampleField =
     \<lparr> f_id = ''field-1'', f_type = SIGNATURE, f_pageNumber = 1,
       f_x = 10, f_y = 80, f_width = 20, f_height = 8, f_required = True,
       f_signerId = Some ''signer-1'',
       f_value = Some ''data:image/png;base64,iVBORw=='',
       f_signatureType = Some ''drawn'' \<rparr>"

definition corruptField :: SignatureFieldData where
  "corruptField = sampleField \<lparr> f_value := Some ''data:image/png;base64,@@@'' \<rparr>"


definition offPageField :: SignatureFieldData where
  "offPageField = sampleField \<lparr> f_id := ''field-2'', f_pageNumber := 2 \<rparr>"

definition hugePageField :: SignatureFieldData where
  "hugePageField = sampleField \<lparr> f_id := ''field-9'', f_pageNumber := 10 ^ 21 \<rparr>"

definition unsignedField :: SignatureFieldData where
  "unsignedField = sampleField \<lparr> f_id := ''field-3'', f_value := None \<rparr>"

definition sharedField :: SignatureFieldData where
  "sharedField = sampleField \<lparr> f_id := ''field-4'', f_signerId := None, f_value := None \<rparr>"

definition blankField :: SignatureFieldData where
  "blankField = sampleField \<lparr> f_id := ''field-5'', f_y := 20, f_value := Some ''  '' \<rparr>"

definition laterField :: SignatureFieldData where
  "laterField = sampleField \<lparr> f_id := ''field-6'', f_pageNumber := 2, f_y := 5, f_value := None \<rparr>"

definition dateField :: SignatureFieldData where
  "dateField = sampleField \<lparr> f_id := ''field-7'', f_type := DATE, f_value := Some ''11/03/2026'' \<rparr>"

definition checkboxField :: SignatureFieldData where
  "checkboxField = sampleField \<lparr> f_id := ''field-8'', f_type := CHECKBOX, f_value := Some ''checked'' \<rparr>"

text \<open>The same environment with fonts that encode every text.\<close>

definition glyphEnv :: "(real \<times> real) list pdf_env" where
  "glyphEnv = testEnv \<lparr> canEncode := (\<lambda>font s. True) \<rparr>"

definition edgeField :: PartialField where
  "edgeField = \<lparr> p_x = Some 0, p_y = Some 10, p_width = Some 20, p_height = Some 8 \<rparr>"

definition alice :: Signer where
  "alice =
     \<lparr> s_id = None, signerEmail = ''alice@example.com'', signerName = ''Alice'',
       signerRole = Some ''Customer'', signingOrder = 1, contactId = None, s_status = None \<rparr>"

definition bob :: Signer where
  "bob = alice \<lparr> signerEmail := ''bob@example.com'', signerName := ''Bob'', signingOrder := 2 \<rparr>"

definition aliceAgain :: Signer where
  "aliceAgain = alice \<lparr> signerEmail := ''Alice@Example.com'', signingOrder := 2 \<rparr>"

definition nameless :: Signer where
  "nameless = alice \<lparr> signerName := [], signingOrder := 2 \<rparr>"

section \<open>Properties of the number model\<close>

subsection \<open>Rounding\<close>

lemma pow2_pos: "0 < pow2 e"
  by (simp add: pow2_def)

lemma pow2_succ: "pow2 (e + 1) = 2 * pow2 e"
proof (cases "0 \<le> e")
  case True
  then show ?thesis by (simp add: pow2_def nat_add_distrib)
next
  case False
  then have "nat (- e) = Suc (nat (- (e + 1)))" by simp
  then have "(2::real) ^ nat (- e) = 2 * 2 ^ nat (- (e + 1))" by simp
  then show ?thesis using False by (auto simp: pow2_def)
qed

lemma pow2_pred: "pow2 (e - 1) = pow2 e / 2"
  using pow2_succ [of "e - 1"] by simp

lemma ilog2_up_bounds: "1 \<le> a \<Longrightarrow> pow2 (ilog2_up a) \<le> a \<and> a < 2 * pow2 (ilog2_up a)"
proof (induction a rule: ilog2_up.induct)
  case (1 a)
  show ?case
  proof (cases "2 \<le> a")
    case True
    then have "pow2 (ilog2_up (a / 2)) \<le> a / 2 \<and> a / 2 < 2 * pow2 (ilog2_up (a / 2))"
      using 1 by simp
    then show ?thesis using True by (simp add: ilog2_up.simps [of a] pow2_succ)
  next
    case False
    then show ?thesis using 1(2) by (simp add: ilog2_up.simps [of a] pow2_def)
  qed
qed

lemma ilog2_down_bounds:
  "0 < a \<Longrightarrow> a < 1 \<Longrightarrow> pow2 (ilog2_down a) \<le> a \<and> a < 2 * pow2 (ilog2_down a)"
proof (induction a rule: ilog2_down.induct)
  case (1 a)
  show ?case
  proof (cases "a * 2 < 1")
    case True
    then have "pow2 (ilog2_down (a * 2)) \<le> a * 2 \<and> a * 2 < 2 * pow2 (ilog2_down (a * 2))"
      using 1 by simp
    then show ?thesis using 1(2,3) by (simp add: ilog2_down.simps [of a] pow2_pred)
  next
    case False
    then have "ilog2_down (a * 2) = 0" by (simp add: ilog2_down.simps [of "a * 2"])
    then have "ilog2_down a = - 1" using 1(2,3) by (simp add: ilog2_down.simps [of a])
    then show ?thesis using False 1(3) by (simp add: pow2_def)
  qed
qed

lemma ilog2_bounds: "0 < a \<Longrightarrow> pow2 (ilog2 a) \<le> a \<and> a < 2 * pow2 (ilog2 a)"
  using ilog2_up_bounds [of a] ilog2_down_bounds [of a] by (auto simp: ilog2_def)

lemma round_even_near: "\<bar>of_int (round_even m) - m\<bar> \<le> 1 / 2"
  unfolding round_even_def Let_def by (auto split: if_splits)

lemma round_even_mono_int: "of_int k \<le> m \<Longrightarrow> k \<le> round_even m"
  unfolding round_even_def Let_def by (auto split: if_splits) linarith+

text \<open>The rounded value is a multiple of the unit in the last place, at most half a unit away.\<close>

lemma round_double_near:
  assumes "x \<noteq> 0"
  shows "\<bar>round_double x - x\<bar> \<le> pow2 (ilog2 \<bar>x\<bar> - 52) / 2"
proof -
  let ?u = "pow2 (ilog2 \<bar>x\<bar> - 52)"
  let ?r = "round_even (\<bar>x\<bar> / ?u)"
  have u: "0 < ?u" by (rule pow2_pos)
  have rd: "round_double x = sgn x * of_int ?r * ?u"
    using assms by (simp add: round_double_def Let_def)
  have "\<bar>of_int ?r - \<bar>x\<bar> / ?u\<bar> \<le> 1 / 2" by (rule round_even_near)
  then have "\<bar>of_int ?r - \<bar>x\<bar> / ?u\<bar> * ?u \<le> 1 / 2 * ?u"
    using u by (simp only: mult_le_cancel_right_pos)
  moreover have "\<bar>of_int ?r - \<bar>x\<bar> / ?u\<bar> * ?u = \<bar>of_int ?r * ?u - \<bar>x\<bar>\<bar>"
  proof -
    have "\<bar>of_int ?r - \<bar>x\<bar> / ?u\<bar> * ?u = \<bar>(of_int ?r - \<bar>x\<bar> / ?u) * ?u\<bar>"
      using u by (simp add: abs_mult)
    also have "(of_int ?r - \<bar>x\<bar> / ?u) * ?u = of_int ?r * ?u - \<bar>x\<bar>"
      using u by (simp add: algebra_simps)
    finally show ?thesis .
  qed
  ultimately have near: "\<bar>of_int ?r * ?u - \<bar>x\<bar>\<bar> \<le> ?u / 2" by simp
  have "\<bar>round_double x - x\<bar> = \<bar>of_int ?r * ?u - \<bar>x\<bar>\<bar>"
  proof (cases "0 < x")
    case True
    then show ?thesis by (simp add: rd)
  next
    case False
    then have "x < 0" using assms by simp
    then show ?thesis by (simp add: rd)
  qed
  then show ?thesis using near by simp
qed

text \<open>Rounding keeps the sign: a non-zero number is not rounded to zero.\<close>

lemma round_double_sign: "round_double x \<le> 0 \<longleftrightarrow> x \<le> 0"
proof (cases "x = 0")
  case True
  then show ?thesis by (simp add: round_double_def)
next
  case False
  let ?u = "pow2 (ilog2 \<bar>x\<bar> - 52)"
  let ?r = "round_even (\<bar>x\<bar> / ?u)"
  have u: "0 < ?u" by (rule pow2_pos)
  have ax: "0 < \<bar>x\<bar>" using False by simp
  have "pow2 (ilog2 \<bar>x\<bar>) \<le> \<bar>x\<bar>" using ilog2_bounds [OF ax] by simp
  moreover have "?u \<le> pow2 (ilog2 \<bar>x\<bar>)"
  proof -
    have "\<And>n e. pow2 (e - int n) \<le> pow2 e"
    proof -
      fix n e show "pow2 (e - int n) \<le> pow2 e"
      proof (induction n)
        case 0 show ?case by simp
      next
        case (Suc n)
        have "pow2 (e - int (Suc n)) = pow2 (e - int n) / 2"
          using pow2_pred [of "e - int n"] by (simp add: algebra_simps)
        then show ?case using Suc pow2_pos [of "e - int n"] by simp
      qed
    qed
    from this [of "ilog2 \<bar>x\<bar>" 52] show ?thesis by simp
  qed
  ultimately have "1 \<le> \<bar>x\<bar> / ?u" using u by (simp add: le_divide_eq)
  then have "of_int (1::int) \<le> \<bar>x\<bar> / ?u" by simp
  then have r: "1 \<le> ?r" by (rule round_even_mono_int)
  then have pos: "0 < of_int ?r * ?u" using u by simp
  have rd: "round_double x = sgn x * (of_int ?r * ?u)"
    using False by (simp add: round_double_def Let_def)
  show ?thesis
  proof (cases "0 < x")
    case True
    then show ?thesis using pos by (simp add: rd)
  next
    case F: False
    then have "x < 0" using False by simp
    then show ?thesis using pos by (simp add: rd)
  qed
qed

subsection \<open>Keys and \<^verbatim>\<open>parseInt\<close>\<close>

text \<open>\<^verbatim>\<open>parseInt\<close> reads back the decimal numeral of an integer.\<close>

lemma digit_value_digit_char: "d < 10 \<Longrightarrow> digit_value (digit_char d) = d"
proof -
  assume "d < 10"
  then have "d = 0 \<or> d = 1 \<or> d = 2 \<or> d = 3 \<or> d = 4 \<or> d = 5 \<or> d = 6 \<or> d = 7 \<or> d = 8 \<or> d = 9"
    by arith
  then show ?thesis
    by (elim disjE) (simp_all add: digit_value_def digit_char_def)
qed

lemma is_digit_not_special:
  assumes "is_digit 10 c"
  shows "\<not> is_space c" "c \<noteq> CHR ''-''" "c \<noteq> CHR ''+''" "c \<noteq> CHR ''x''" "c \<noteq> CHR ''X''"
proof -
  have "\<not> is_digit 10 (CHR '' '')" "\<not> is_digit 10 (CHR 0x09)" "\<not> is_digit 10 (CHR 0x0A)"
    "\<not> is_digit 10 (CHR 0x0B)" "\<not> is_digit 10 (CHR 0x0C)" "\<not> is_digit 10 (CHR 0x0D)"
    "\<not> is_digit 10 (CHR ''-'')" "\<not> is_digit 10 (CHR ''+'')"
    "\<not> is_digit 10 (CHR ''x'')" "\<not> is_digit 10 (CHR ''X'')"
    by (simp_all add: is_digit_def digit_value_def)
  then show "\<not> is_space c" "c \<noteq> CHR ''-''" "c \<noteq> CHR ''+''" "c \<noteq> CHR ''x''" "c \<noteq> CHR ''X''"
    using assms by (auto simp: is_space_def)
qed

lemma digits_value_snoc:
  "digits_value radix (ds @ [c]) = digits_value radix ds * radix + digit_value c"
  by (simp add: digits_value_def)

lemma showNat_digits: "showNat n \<noteq> [] \<and> list_all (is_digit 10) (showNat n)"
proof (induction n rule: showNat.induct)
  case (1 n)
  show ?case
  proof (cases "n < 10")
    case True
    then show ?thesis
      by (simp add: showNat.simps [of n] is_digit_def digit_value_digit_char)
  next
    case False
    have "n mod 10 < 10" by simp
    then have "is_digit 10 (digit_char (n mod 10))"
      by (simp add: is_digit_def digit_value_digit_char)
    then show ?thesis using False 1 by (simp add: showNat.simps [of n])
  qed
qed

lemma showNat_value: "digits_value 10 (showNat n) = n"
proof (induction n rule: showNat.induct)
  case (1 n)
  show ?case
  proof (cases "n < 10")
    case True
    then show ?thesis
      by (simp add: showNat.simps [of n] digits_value_def digit_value_digit_char)
  next
    case False
    have "digit_value (digit_char (n mod 10)) = n mod 10"
      by (simp add: digit_value_digit_char)
    then show ?thesis using False 1
      by (simp add: showNat.simps [of n] digits_value_snoc)
  qed
qed

lemma parseInt_digits:
  assumes "ds \<noteq> []" "list_all (is_digit 10) ds"
  shows "parseInt ds = Some (int (digits_value 10 ds))"
    and "parseInt (CHR ''-'' # ds) = Some (- int (digits_value 10 ds))"
proof -
  obtain c cs where ds: "ds = c # cs" using assms(1) by (cases ds) auto
  have c: "is_digit 10 c" using assms(2) ds by simp
  note sp = is_digit_not_special [OF c]
  have no_hex: "take 2 ds \<noteq> ''0x''" "take 2 ds \<noteq> ''0X''"
  proof -
    { fix h assume "take 2 ds = [CHR ''0'', h]"
      then have "h \<in> set ds" by (metis in_set_takeD list.set_intros(1) list.set_intros(2))
      then have "is_digit 10 h" using assms(2) by (simp add: list_all_iff) }
    then show "take 2 ds \<noteq> ''0x''" "take 2 ds \<noteq> ''0X''"
      using is_digit_not_special(4,5) by blast+
  qed
  have tw: "takeWhile (is_digit 10) ds = ds"
    using assms(2) by (simp add: list_all_iff takeWhile_eq_all_conv)
  have dw: "dropWhile is_space ds = ds" using sp(1) ds by simp
  have t1: "take (Suc 0) ds = [c]" using ds by simp
  show "parseInt ds = Some (int (digits_value 10 ds))"
    unfolding parseInt_def dw using sp(2,3) no_hex assms(1) by (simp add: Let_def tw t1)
  have dw': "dropWhile is_space (CHR ''-'' # ds) = CHR ''-'' # ds"
    by (simp add: is_space_def)
  show "parseInt (CHR ''-'' # ds) = Some (- int (digits_value 10 ds))"
    unfolding parseInt_def dw' using no_hex assms(1) by (simp add: Let_def tw)
qed

lemma parseInt_showInt: "parseInt (showInt k) = Some k"
proof (cases "k < 0")
  case True
  then show ?thesis
    using parseInt_digits(2) [of "showNat (nat (- k))"] showNat_digits [of "nat (- k)"]
    by (simp add: showInt_def showNat_value)
next
  case False
  then show ?thesis
    using parseInt_digits(1) [of "showNat (nat k)"] showNat_digits [of "nat k"]
    by (simp add: showInt_def showNat_value)
qed

lemma showInt_examples: "showInt 1 = ''1''" "showInt (-12) = ''-12''" "showInt 4294967294 = ''4294967294''"
  by (simp_all add: showInt_def showNat.simps digit_char_def)

lemma parseInt_examples: "parseInt ''1e+21'' = Some 1" "parseInt ''1.5'' = Some 1" "parseInt ''NaN'' = None" "parseInt ''0x1F'' = Some 31" "parseInt '' -42px'' = Some (-42)" "parseInt [] = None"
  by (simp_all add: parseInt_def is_space_def is_digit_def digit_value_def digits_value_def Let_def)

section \<open>Properties of the field validator\<close>

lemma validateFieldCoordinates_present:
  "validateFieldCoordinates \<lparr>p_x = Some x, p_y = Some y, p_width = Some w, p_height = Some h\<rparr>
     = (0 < x \<and> 0 < y \<and> 0 < w \<and> 0 < h \<and> x + w \<le> 100 \<and> y + h \<le> 100)"
  by (auto simp: validateFieldCoordinates_def falsy_num_def)

lemma validateFieldCoordinates_missing:
  "p_x field = None \<or> p_y field = None \<or> p_width field = None \<or> p_height field = None
     \<Longrightarrow> \<not> validateFieldCoordinates field"
  by (auto simp: validateFieldCoordinates_def falsy_num_def)

lemma validateFieldCoordinates_rejects:
  "x < 0 \<or> y < 0 \<or> x + w > 100 \<or> y + h > 100 \<or> w \<le> 0 \<or> h \<le> 0
     \<Longrightarrow> \<not> validateFieldCoordinates
            \<lparr>p_x = Some x, p_y = Some y, p_width = Some w, p_height = Some h\<rparr>"
  by (auto simp: validateFieldCoordinates_present)

text \<open>
  Claim C2: the validator returns false for every field with \<open>x < 0\<close>, \<open>y < 0\<close>,
  \<open>x + width > 100\<close>, \<open>y + height > 100\<close>, \<open>width \<le> 0\<close> or \<open>height \<le> 0\<close>, and true for every
  field whose four values lie in \<open>[0, 100]\<close> with positive size and within the page edges.
  The first half is \<open>validateFieldCoordinates_rejects\<close>. The second half fails for a field
  that touches the left or the top edge: \<^verbatim>\<open>!field.x\<close> is true for \<open>x = 0\<close>, so the field
  at \<open>x = 0, y = 10\<close> of size \<open>20 \<times> 8\<close> is inside the bounds and is rejected, although the
  range check that follows (\<^verbatim>\<open>field.x < 0\<close>) lets zero pass.
\<close>

theorem validator_rejects_field_on_page_edge:
  "edgeField = \<lparr>p_x = Some 0, p_y = Some 10, p_width = Some 20, p_height = Some 8\<rparr>
   \<and> validateFieldCoordinates edgeField = False"
  by (simp add: edgeField_def validateFieldCoordinates_present)

section \<open>Properties of the signing-session queries\<close>

lemma set_insert_by: "set (insert_by cmp a xs) = insert a (set xs)"
  by (induction xs) auto

lemma set_sort_by: "set (sort_by cmp xs) = set xs"
  by (induction xs) (auto simp: sort_by_def set_insert_by)

lemma sort_by_Nil_iff: "sort_by cmp xs = [] \<longleftrightarrow> xs = []"
  using set_sort_by [of cmp xs] by (metis set_empty)

lemma compareFields_le:
  "compareFields a b \<le> 0 \<longleftrightarrow>
     f_pageNumber a < f_pageNumber b \<or> (f_pageNumber a = f_pageNumber b \<and> f_y a \<le> f_y b)"
  by (auto simp: compareFields_def)

lemma compareFields_refl: "compareFields a a \<le> 0"
  by (simp add: compareFields_def)

text \<open>Insertion keeps a list sorted when the comparator is a total preorder.\<close>

lemma sorted_insert_by:
  assumes tot: "\<And>a b. 0 < cmp a b \<Longrightarrow> cmp b a \<le> 0"
    and trans: "\<And>a b c. cmp a b \<le> 0 \<Longrightarrow> cmp b c \<le> 0 \<Longrightarrow> cmp a c \<le> 0"
  shows "sorted_wrt (\<lambda>a b. cmp a b \<le> 0) xs
           \<Longrightarrow> sorted_wrt (\<lambda>a b. cmp a b \<le> 0) (insert_by cmp a xs)"
proof (induction xs)
  case Nil
  then show ?case by simp
next
  case (Cons b bs)
  show ?case
  proof (cases "cmp a b \<le> 0")
    case True
    with Cons.prems show ?thesis using trans by auto
  next
    case False
    then have "cmp b a \<le> 0" using tot by force
    with False Cons show ?thesis by (auto simp: set_insert_by)
  qed
qed

lemma sorted_sort_by:
  assumes tot: "\<And>a b. 0 < cmp a b \<Longrightarrow> cmp b a \<le> 0"
    and trans: "\<And>a b c. cmp a b \<le> 0 \<Longrightarrow> cmp b c \<le> 0 \<Longrightarrow> cmp a c \<le> 0"
  shows "sorted_wrt (\<lambda>a b. cmp a b \<le> 0) (sort_by cmp xs)"
proof (induction xs)
  case Nil
  show ?case by (simp add: sort_by_def)
next
  case (Cons x xs)
  have "sort_by cmp (x # xs) = insert_by cmp x (sort_by cmp xs)"
    by (simp add: sort_by_def)
  with Cons show ?case using sorted_insert_by [OF tot trans] by simp
qed

lemma sorted_fields: "sorted_wrt (\<lambda>a b. compareFields a b \<le> 0) (sort_by compareFields xs)"
proof (rule sorted_sort_by)
  fix a b :: SignatureFieldData
  assume "0 < compareFields a b"
  then show "compareFields b a \<le> 0"
    by (auto simp: compareFields_def split: if_splits)
next
  fix a b c :: SignatureFieldData
  assume "compareFields a b \<le> 0" "compareFields b c \<le> 0"
  then show "compareFields a c \<le> 0"
    unfolding compareFields_le by auto
qed

lemma head_least:
  assumes "sort_by compareFields xs = first # rest" "g \<in> set xs"
  shows "compareFields first g \<le> 0"
proof -
  have s: "sorted_wrt (\<lambda>a b. compareFields a b \<le> 0) (first # rest)"
    using sorted_fields [of xs] assms(1) by simp
  have "g \<in> set (first # rest)" using assms set_sort_by [of compareFields xs] by simp
  then show ?thesis using s compareFields_refl by auto
qed

text \<open>The returned field: an outstanding one that no outstanding field precedes.\<close>

lemma next_field_least:
  assumes "outstandingRequired flds signerId \<noteq> []"
  shows "\<exists>f. getNextRequiredField flds signerId = Some f
           \<and> f \<in> set (outstandingRequired flds signerId)
           \<and> (\<forall>g \<in> set (outstandingRequired flds signerId). compareFields f g \<le> 0)"
proof -
  let ?c = "outstandingRequired flds signerId"
  obtain first rest where s: "sort_by compareFields ?c = first # rest"
    using assms sort_by_Nil_iff [of compareFields ?c] by (cases "sort_by compareFields ?c") auto
  have 1: "getNextRequiredField flds signerId = Some first"
    by (simp add: getNextRequiredField_def s)
  have 2: "first \<in> set ?c"
    using set_sort_by [of compareFields ?c] s by (metis list.set_intros(1))
  have 3: "\<forall>g \<in> set ?c. compareFields first g \<le> 0"
    using head_least [OF s] by blast
  show ?thesis using 1 2 3 by blast
qed

lemma unassigned_field_out_of_scope:
  "signerId \<noteq> [] \<Longrightarrow> falsy_str (f_signerId f) \<Longrightarrow> \<not> signer_matches (Some signerId) f"
  by (auto simp: signer_matches_def falsy_str_def split: option.splits)

text \<open>
  Claim C3: for a given signer id, the fields counted as that signer's include every field
  with no signer assigned; a required unassigned field without a value makes
  \<^verbatim>\<open>areAllRequiredFieldsSigned(fields, signerId)\<close> false and is a candidate of
  \<^verbatim>\<open>getNextRequiredField(fields, signerId)\<close>. The two functions test
  \<^verbatim>\<open>!signerId || field.signerId === signerId\<close>, so with a signer id given an unassigned
  field is left out: for the one required, unassigned, empty field \<open>sharedField\<close> and the
  signer \<^verbatim>\<open>signer-1\<close> the first answers true and the second null, while \<^verbatim>\<open>getMyFields\<close> of
  the signing view keeps the field.
\<close>

theorem unassigned_field_ignored_for_signer:
  "f_required sharedField \<and> f_signerId sharedField = None \<and> f_value sharedField = None
   \<and> areAllRequiredFieldsSigned [sharedField] (Some ''signer-1'') = True
   \<and> getNextRequiredField [sharedField] (Some ''signer-1'') = None
   \<and> getMyFields [sharedField] ''signer-1'' = [sharedField]"
  by (simp add: outstandingRequired_def signer_matches_def falsy_str_def
      value_blank_def trim_def is_space_def sort_by_def compareFields_def getNextRequiredField_def
      areAllRequiredFieldsSigned_def value_filled_def getMyFields_def sharedField_def sampleField_def)

text \<open>
  Claim C5: when at least one required field is outstanding for the signer,
  \<^verbatim>\<open>getNextRequiredField\<close> returns the outstanding required field that is lowest in the
  lexicographic order of (page number, \<open>y\<close>). The outstanding required fields of a signer
  are, in the words of the specification, the required fields without a value that are
  assigned to the signer or to nobody. For the signer \<^verbatim>\<open>signer-1\<close> and the list of the
  unassigned \<open>sharedField\<close> on page 1 and \<open>laterField\<close> of the signer on page 2 both are
  outstanding and the lowest is \<open>sharedField\<close>; the function returns \<open>laterField\<close>. For the
  list of \<open>sharedField\<close> alone it returns nothing. Among the fields that its own filter
  keeps the function does return the lowest (\<open>next_field_least\<close>): what fails is the filter,
  which leaves the unassigned fields out as in claim C3.
\<close>

theorem next_required_field_passes_over_unassigned:
  "spec_requiredOutstanding [sharedField, laterField] ''signer-1'' = [sharedField, laterField]
   \<and> f_pageNumber sharedField = 1 \<and> f_pageNumber laterField = 2
   \<and> getNextRequiredField [sharedField, laterField] (Some ''signer-1'') = Some laterField
   \<and> spec_requiredOutstanding [sharedField] ''signer-1'' = [sharedField]
   \<and> getNextRequiredField [sharedField] (Some ''signer-1'') = None"
  by (simp add: spec_requiredOutstanding_def spec_fieldsForSigner_def
      outstandingRequired_def signer_matches_def falsy_str_def
      value_blank_def trim_def is_space_def sort_by_def compareFields_def getNextRequiredField_def
      sharedField_def laterField_def sampleField_def)

lemma trim_blank: "list_all is_space v \<Longrightarrow> trim v = []"
proof -
  assume "list_all is_space v"
  then have "dropWhile is_space v = []" by (simp add: list_all_iff dropWhile_eq_Nil_conv)
  then have "rev (dropWhile is_space (rev (dropWhile is_space v))) = rev (dropWhile is_space (rev []))"
    by (rule arg_cong)
  then show ?thesis by (simp add: trim_def)
qed

text \<open>
  Claim C10: a required field in scope whose value is empty or consists of white space only
  counts as unfilled: \<^verbatim>\<open>areAllRequiredFieldsSigned\<close> is false, the field is among the
  outstanding fields from which \<^verbatim>\<open>getNextRequiredField\<close> chooses, the function returns a
  field that is not after it in (page number, \<open>y\<close>) order, and it returns the field itself
  when the field is the only outstanding one.
\<close>

theorem blank_value_counts_as_unfilled:
  assumes "f \<in> set flds" "f_required f" "signer_matches signerId f"
    and "f_value f = Some v" "list_all is_space v"
  shows "\<not> areAllRequiredFieldsSigned flds signerId
         \<and> f \<in> set (outstandingRequired flds signerId)
         \<and> (\<exists>g. getNextRequiredField flds signerId = Some g
                \<and> (f_pageNumber g < f_pageNumber f
                    \<or> (f_pageNumber g = f_pageNumber f \<and> f_y g \<le> f_y f)))
         \<and> (set (outstandingRequired flds signerId) = {f}
              \<longrightarrow> getNextRequiredField flds signerId = Some f)"
proof -
  have blank: "value_blank (f_value f)" and unfilled: "\<not> value_filled (f_value f)"
    using assms(4,5) by (simp_all add: value_blank_def value_filled_def trim_blank)
  have 1: "\<not> areAllRequiredFieldsSigned flds signerId"
    using assms(1-3) unfilled by (auto simp: areAllRequiredFieldsSigned_def list_all_iff)
  have 2: "f \<in> set (outstandingRequired flds signerId)"
    using assms(1-3) blank by (simp add: outstandingRequired_def)
  then have "outstandingRequired flds signerId \<noteq> []" by auto
  then obtain g where g: "getNextRequiredField flds signerId = Some g"
      "g \<in> set (outstandingRequired flds signerId)"
      "\<forall>h \<in> set (outstandingRequired flds signerId). compareFields g h \<le> 0"
    using next_field_least by blast
  have 3: "f_pageNumber g < f_pageNumber f \<or> (f_pageNumber g = f_pageNumber f \<and> f_y g \<le> f_y f)"
    using g(3) 2 compareFields_le by blast
  have 4: "set (outstandingRequired flds signerId) = {f} \<longrightarrow> getNextRequiredField flds signerId = Some f"
    using g(1,2) by auto
  show ?thesis using 1 2 3 4 g(1) by blast
qed

theorem blank_value_counts_as_unfilled_witness:
  "blankField \<in> set [sampleField, blankField] \<and> f_required blankField
   \<and> signer_matches (Some ''signer-1'') blankField \<and> f_value blankField = Some ''  ''
   \<and> list_all is_space ''  ''
   \<and> areAllRequiredFieldsSigned [sampleField, blankField] (Some ''signer-1'') = False
   \<and> outstandingRequired [sampleField, blankField] (Some ''signer-1'') = [blankField]
   \<and> getNextRequiredField [sampleField, blankField] (Some ''signer-1'') = Some blankField"
  using blank_value_counts_as_unfilled
    [of blankField "[sampleField, blankField]" "Some ''signer-1''" "''  ''"]
  by (simp add: outstandingRequired_def signer_matches_def falsy_str_def
      value_blank_def trim_def is_space_def sort_by_def compareFields_def getNextRequiredField_def
      areAllRequiredFieldsSigned_def value_filled_def blankField_def sampleField_def)

section \<open>Properties of the embedder\<close>

subsection \<open>One field\<close>

lemma stampField_image:
  assumes "f_type sig = SIGNATURE \<or> f_type sig = INITIALS" "f_value sig = Some v" "v \<noteq> []"
    "startsWith v ''data:image/''" "embedSignatureImage env v = Some (fmt, img)"
  shows "stampField env n (pw, ph) sig ops =
     Some (ops @ [EmbedImage fmt img,
        DrawImage n fmt img (js_mul (js_div (f_x sig) 100) pw)
          (js_sub (js_sub ph (js_mul (js_div (f_y sig) 100) ph))
             (js_mul (js_div (f_height sig) 100) ph))
          (js_mul (js_div (f_width sig) 100) pw) (js_mul (js_div (f_height sig) 100) ph)])"
  using assms by (simp add: stampField_def falsy_str_def)



lemma stampField_text:
  assumes "f_type sig = TEXT \<or> f_type sig = DATE" "f_value sig = Some v" "v \<noteq> []"
    "canEncode env Helvetica v"
  shows "stampField env n (pw, ph) sig ops =
     Some (ops @ [EmbedFont Helvetica,
        DrawText n v (js_mul (js_div (f_x sig) 100) pw)
          (js_sub
             (js_add (js_sub (js_sub ph (js_mul (js_div (f_y sig) 100) ph))
                        (js_mul (js_div (f_height sig) 100) ph))
                (js_div (js_mul (js_div (f_height sig) 100) ph) 2))
             (js_div (min (js_mul (js_mul (js_div (f_height sig) 100) ph) (round_double 0.6)) 12) 2))
          (min (js_mul (js_mul (js_div (f_height sig) 100) ph) (round_double 0.6)) 12)
          Helvetica (Some (js_mul (js_div (f_width sig) 100) pw))])"
  using assms by (auto simp add: stampField_def falsy_str_def Let_def)

lemma stampField_checkbox:
  assumes "f_type sig = CHECKBOX" "f_value sig = Some v" "v \<noteq> []"
    and "cs = js_mul (min (js_mul (js_div (f_width sig) 100) pw)
                          (js_mul (js_div (f_height sig) 100) ph)) (round_double 0.8)"
    and "x = js_mul (js_div (f_x sig) 100) pw"
    and "y = js_sub (js_sub ph (js_mul (js_div (f_y sig) 100) ph))
                    (js_mul (js_div (f_height sig) 100) ph)"
  shows "stampField env n (pw, ph) sig ops =
     (if v = ''checked''
      then if canEncode env HelveticaBold checkmark
           then Some (ops @ [EmbedFont HelveticaBold, DrawRectangle n x y cs cs,
                  DrawText n checkmark (js_add x (js_mul cs (round_double 0.1)))
                    (js_add y (js_mul cs (round_double 0.1))) (js_mul cs (round_double 0.8))
                    HelveticaBold None])
           else None
      else Some (ops @ [EmbedFont HelveticaBold, DrawRectangle n x y cs cs]))"
  using assms(1-3) unfolding assms(4-6) by (simp add: stampField_def falsy_str_def Let_def)

lemma stampField_blank:
  "falsy_str (f_value sig) \<Longrightarrow> stampField env n sz sig ops = Some ops"
  by (cases sz) (simp add: stampField_def)

lemma stampPage_blank:
  "\<forall>sig \<in> set sigs. falsy_str (f_value sig) \<Longrightarrow> stampPage env n sz sigs ops = Some ops"
  by (induction sigs) (simp_all add: stampField_blank)

lemma stampEntries_blank:
  "\<forall>e \<in> set es. parseInt (fst e) \<noteq> None \<and> (\<forall>sig \<in> set (snd e). falsy_str (f_value sig))
     \<Longrightarrow> stampEntries env pages es ops = Some ops"
proof (induction es)
  case Nil
  show ?case by simp
next
  case (Cons e es)
  obtain k grp where e: "e = (k, grp)" by (cases e)
  obtain n where n: "parseInt k = Some n" using Cons.prems e by auto
  have "\<forall>sig \<in> set grp. falsy_str (f_value sig)" using Cons.prems e by auto
  then have "\<And>n sz. stampPage env n sz grp ops = Some ops" by (simp add: stampPage_blank)
  moreover have "stampEntries env pages es ops = Some ops" using Cons by simp
  ultimately show ?case by (simp add: e n Let_def)
qed

lemma grouped_group_push: "grouped (group_push key sig acc) = insert sig (grouped acc)"
  by (induction key sig acc rule: group_push.induct) (auto simp: grouped_def)

lemma grouped_foldl:
  "grouped (foldl (\<lambda>acc sig. group_push (kf sig) sig acc) acc sigs) = grouped acc \<union> set sigs"
  by (induction sigs arbitrary: acc) (auto simp: grouped_group_push)

lemma grouped_signaturesByPage: "grouped (signaturesByPage env sigs) = set sigs"
  by (simp add: signaturesByPage_def grouped_foldl) (simp add: grouped_def)

lemma keys_group_push: "fst ` set (group_push key sig acc) = insert key (fst ` set acc)"
  by (induction key sig acc rule: group_push.induct) auto

lemma keys_foldl:
  "fst ` set (foldl (\<lambda>acc sig. group_push (kf sig) sig acc) acc sigs)
     = fst ` set acc \<union> kf ` set sigs"
  by (induction sigs arbitrary: acc) (auto simp: keys_group_push)

lemma keys_signaturesByPage:
  "fst ` set (signaturesByPage env sigs) = (\<lambda>sig. numberToString env (f_pageNumber sig)) ` set sigs"
  by (simp add: signaturesByPage_def keys_foldl)

lemma set_object_entries: "set (object_entries obj) = set obj"
  by (auto simp: object_entries_def)

lemma numberToString_safe:
  "is_safe_integer p \<Longrightarrow> parseInt (numberToString env p) = Some \<lfloor>p\<rfloor>"
  by (simp add: numberToString_def parseInt_showInt)

text \<open>
  Without values nothing is done to the document, provided the key of every page number
  is one that \<^verbatim>\<open>parseInt\<close> reads.
\<close>

lemma embedLog_blank:
  assumes "\<forall>sig \<in> set sigs. falsy_str (f_value sig)"
    and "\<forall>sig \<in> set sigs. parseInt (numberToString env (f_pageNumber sig)) \<noteq> None"
  shows "embedLog env d sigs = Some []"
proof -
  have "\<forall>e \<in> set (object_entries (signaturesByPage env sigs)).
          parseInt (fst e) \<noteq> None \<and> (\<forall>sig \<in> set (snd e). falsy_str (f_value sig))"
  proof (intro ballI conjI)
    fix e
    assume e: "e \<in> set (object_entries (signaturesByPage env sigs))"
    then have "fst e \<in> fst ` set (signaturesByPage env sigs)"
      by (simp add: set_object_entries)
    then show "parseInt (fst e) \<noteq> None"
      using assms(2) by (auto simp: keys_signaturesByPage)
  next
    fix e sig
    assume "e \<in> set (object_entries (signaturesByPage env sigs))" "sig \<in> set (snd e)"
    then have "sig \<in> grouped (signaturesByPage env sigs)"
      by (auto simp: grouped_def set_object_entries)
    then show "falsy_str (f_value sig)" using assms(1) by (simp add: grouped_signaturesByPage)
  qed
  then show ?thesis by (simp add: embedLog_def stampEntries_blank)
qed

lemma embedLog_Nil: "embedLog env d [] = Some []"
  by (simp add: embedLog_def signaturesByPage_def object_entries_def)

text \<open>Entries of pages that do not exist play no part in the outer loop.\<close>

lemma filter_group_push:
  "filter (\<lambda>e. P (fst e)) (group_push key sig acc) =
     (if P key then group_push key sig (filter (\<lambda>e. P (fst e)) acc)
      else filter (\<lambda>e. P (fst e)) acc)"
  by (induction key sig acc rule: group_push.induct) auto

lemma filter_foldl_group_push:
  "filter (\<lambda>e. P (fst e)) (foldl (\<lambda>acc sig. group_push (kf sig) sig acc) acc sigs) =
     foldl (\<lambda>acc sig. group_push (kf sig) sig acc) (filter (\<lambda>e. P (fst e)) acc)
       (filter (\<lambda>sig. P (kf sig)) sigs)"
  by (induction sigs arbitrary: acc) (simp_all add: filter_group_push)

lemma filter_signaturesByPage:
  "filter (\<lambda>e. P (fst e)) (signaturesByPage env sigs) =
     signaturesByPage env (filter (\<lambda>sig. P (numberToString env (f_pageNumber sig))) sigs)"
  unfolding signaturesByPage_def
  using filter_foldl_group_push [of P "\<lambda>sig. numberToString env (f_pageNumber sig)" "[]" sigs]
  by simp

lemma filter_object_entries:
  "filter Q (object_entries obj) = object_entries (filter Q obj)"
proof -
  have "filter Q (sort_key (\<lambda>e. index_of_key (fst e)) (filter (\<lambda>e. is_array_index (fst e)) obj))
          = sort_key (\<lambda>e. index_of_key (fst e)) (filter (\<lambda>e. is_array_index (fst e)) (filter Q obj))"
    by (simp add: filter_sort conj_commute)
  moreover have "filter Q (filter (\<lambda>e. \<not> is_array_index (fst e)) obj)
          = filter (\<lambda>e. \<not> is_array_index (fst e)) (filter Q obj)"
    by (simp add: conj_commute)
  ultimately show ?thesis by (simp add: object_entries_def)
qed

lemma stampEntries_filter:
  "stampEntries env pages es ops =
     stampEntries env pages (filter (\<lambda>e. \<not> skipped_key (length pages) (fst e)) es) ops"
proof (induction es arbitrary: ops)
  case Nil
  show ?case by simp
next
  case (Cons e es)
  obtain k grp where e: "e = (k, grp)" by (cases e)
  show ?case
  proof (cases "skipped_key (length pages) k")
    case True
    then obtain n where n: "parseInt k = Some n" "n - 1 < 0 \<or> n - 1 \<ge> int (length pages)"
      by (auto simp: skipped_key_def split: option.splits)
    then have "stampEntries env pages (e # es) ops = stampEntries env pages es ops"
      by (simp add: e Let_def)
    moreover have "filter (\<lambda>e. \<not> skipped_key (length pages) (fst e)) (e # es)
        = filter (\<lambda>e. \<not> skipped_key (length pages) (fst e)) es"
      using True by (simp add: e)
    ultimately show ?thesis using Cons.IH [of ops] by simp
  next
    case False
    then have keep: "filter (\<lambda>e. \<not> skipped_key (length pages) (fst e)) (e # es)
        = e # filter (\<lambda>e. \<not> skipped_key (length pages) (fst e)) es"
      by (simp add: e)
    show ?thesis
      unfolding keep using Cons.IH
      by (simp add: e Let_def split: option.splits)
  qed
qed

lemma embedLog_drop_skipped:
  "embedLog env d sigs =
     embedLog env d
       (filter (\<lambda>sig. \<not> skipped_key (length (getPages env d))
                          (numberToString env (f_pageNumber sig))) sigs)"
proof -
  let ?P = "\<lambda>k. \<not> skipped_key (length (getPages env d)) k"
  let ?sigs = "filter (\<lambda>sig. ?P (numberToString env (f_pageNumber sig))) sigs"
  have "embedLog env d sigs = stampEntries env (getPages env d)
          (filter (\<lambda>e. ?P (fst e)) (object_entries (signaturesByPage env sigs))) []"
    unfolding embedLog_def by (rule stampEntries_filter)
  also have "filter (\<lambda>e. ?P (fst e)) (object_entries (signaturesByPage env sigs))
      = object_entries (signaturesByPage env ?sigs)"
    using filter_signaturesByPage [of ?P env sigs] by (simp add: filter_object_entries)
  also have "stampEntries env (getPages env d) \<dots> []
      = stampEntries env (getPages env d)
          (filter (\<lambda>e. ?P (fst e)) (object_entries (signaturesByPage env ?sigs))) []"
    by (rule stampEntries_filter)
  also have "\<dots> = embedLog env d ?sigs"
    unfolding embedLog_def by (rule stampEntries_filter [symmetric])
  finally show ?thesis .
qed

lemma embedLog_skip:
  assumes "skipped_key (length (getPages env d)) (numberToString env (f_pageNumber f))"
  shows "embedLog env d (xs @ f # ys) = embedLog env d (xs @ ys)"
proof -
  let ?keep = "\<lambda>sig. \<not> skipped_key (length (getPages env d)) (numberToString env (f_pageNumber sig))"
  have "embedLog env d (xs @ f # ys) = embedLog env d (filter ?keep (xs @ f # ys))"
    by (rule embedLog_drop_skipped)
  also have "\<dots> = embedLog env d (filter ?keep (xs @ ys))"
    using assms by auto
  also have "\<dots> = embedLog env d (xs @ ys)"
    by (rule embedLog_drop_skipped [symmetric])
  finally show ?thesis .
qed

lemma skipped_key_safe:
  assumes "is_safe_integer p" and "p < 1 \<or> real n < p"
  shows "skipped_key n (numberToString env p)"
proof -
  have eq: "p = of_int \<lfloor>p\<rfloor>" using assms(1) by (simp add: is_safe_integer_def)
  have "\<lfloor>p\<rfloor> - 1 < 0 \<or> \<lfloor>p\<rfloor> - 1 \<ge> int n"
  proof (rule disjE [OF assms(2)])
    assume "p < 1"
    then have "\<lfloor>p\<rfloor> < 1" by linarith
    then show ?thesis by simp
  next
    assume "real n < p"
    then have "int n < \<lfloor>p\<rfloor>" using eq by linarith
    then show ?thesis by simp
  qed
  then show ?thesis
    by (simp add: skipped_key_def numberToString_safe [OF assms(1)])
qed

subsection \<open>The claims on the embedder\<close>

text \<open>
  Claim C1, as amended: for every field with percentages \<open>(x, y, width, height)\<close> and every
  page of size \<open>(pageWidth, pageHeight)\<close> the embedder computes, in double arithmetic with
  every division, multiplication and subtraction rounded to the nearest double,
  \<open>absX = (x / 100) * pageWidth\<close>, \<open>absWidth = (width / 100) * pageWidth\<close>,
  \<open>absHeight = (height / 100) * pageHeight\<close> and
  \<open>absY = pageHeight - (y / 100) * pageHeight - absHeight\<close>: an image is drawn into the box
  \<open>(absX, absY, absWidth, absHeight)\<close>, a text starts at \<open>absX\<close> and is centred on the
  middle of the box, a check box has its corner at \<open>(absX, absY)\<close>. For the field
  \<open>(10, 80, 20, 8)\<close> on a page of 612 by 792 the results are the doubles nearest to \<open>61.2\<close>,
  \<open>122.4\<close> and \<open>63.36\<close> for \<open>absX\<close>, \<open>absWidth\<close> and \<open>absHeight\<close>, and for \<open>absY\<close> the double
  \<open>6687845446645185 / 2\<^sup>4\<^sup>6\<close>, which prints as \<open>95.03999999999998\<close>.
\<close>

theorem embed_absolute_coordinates:
  assumes "f_value sig = Some v" and "v \<noteq> []"
    and "absX = js_mul (js_div (f_x sig) 100) pageWidth"
    and "absWidth = js_mul (js_div (f_width sig) 100) pageWidth"
    and "absHeight = js_mul (js_div (f_height sig) 100) pageHeight"
    and "absY = js_sub (js_sub pageHeight (js_mul (js_div (f_y sig) 100) pageHeight)) absHeight"
    and "checkSize = js_mul (min absWidth absHeight) (round_double 0.8)"
    and "fontSize = min (js_mul absHeight (round_double 0.6)) 12"
  shows "(f_type sig = SIGNATURE \<or> f_type sig = INITIALS \<longrightarrow> startsWith v ''data:image/''
            \<longrightarrow> embedSignatureImage env v = Some (fmt, img)
            \<longrightarrow> stampField env n (pageWidth, pageHeight) sig ops =
                  Some (ops @ [EmbedImage fmt img,
                               DrawImage n fmt img absX absY absWidth absHeight]))
       \<and> (f_type sig = TEXT \<or> f_type sig = DATE \<longrightarrow> canEncode env Helvetica v
            \<longrightarrow> stampField env n (pageWidth, pageHeight) sig ops =
                  Some (ops @ [EmbedFont Helvetica,
                               DrawText n v absX
                                 (js_sub (js_add absY (js_div absHeight 2)) (js_div fontSize 2))
                                 fontSize Helvetica (Some absWidth)]))
       \<and> (f_type sig = CHECKBOX
            \<longrightarrow> v = ''checked'' \<and> canEncode env HelveticaBold checkmark \<or> v \<noteq> ''checked''
            \<longrightarrow> stampField env n (pageWidth, pageHeight) sig ops =
                  Some (ops @ [EmbedFont HelveticaBold,
                               DrawRectangle n absX absY checkSize checkSize]
                            @ (if v = ''checked''
                               then [DrawText n checkmark
                                       (js_add absX (js_mul checkSize (round_double 0.1)))
                                       (js_add absY (js_mul checkSize (round_double 0.1)))
                                       (js_mul checkSize (round_double 0.8)) HelveticaBold None]
                               else [])))"
proof (intro conjI impI)
  assume "f_type sig = SIGNATURE \<or> f_type sig = INITIALS" "startsWith v ''data:image/''"
    "embedSignatureImage env v = Some (fmt, img)"
  then show "stampField env n (pageWidth, pageHeight) sig ops =
      Some (ops @ [EmbedImage fmt img, DrawImage n fmt img absX absY absWidth absHeight])"
    using assms(1,2) unfolding assms(3-8) by (simp add: stampField_image)
next
  assume "f_type sig = TEXT \<or> f_type sig = DATE" "canEncode env Helvetica v"
  then show "stampField env n (pageWidth, pageHeight) sig ops =
      Some (ops @ [EmbedFont Helvetica,
                   DrawText n v absX
                     (js_sub (js_add absY (js_div absHeight 2)) (js_div fontSize 2))
                     fontSize Helvetica (Some absWidth)])"
    using assms(1,2) unfolding assms(3-8) by (simp add: stampField_text)
next
  assume cb: "f_type sig = CHECKBOX"
    "v = ''checked'' \<and> canEncode env HelveticaBold checkmark \<or> v \<noteq> ''checked''"
  have "checkSize = js_mul (min (js_mul (js_div (f_width sig) 100) pageWidth)
                          (js_mul (js_div (f_height sig) 100) pageHeight)) (round_double 0.8)"
    unfolding assms(3-7) ..
  moreover have "absY = js_sub (js_sub pageHeight (js_mul (js_div (f_y sig) 100) pageHeight))
                    (js_mul (js_div (f_height sig) 100) pageHeight)"
    unfolding assms(3-6) ..
  ultimately have "stampField env n (pageWidth, pageHeight) sig ops =
     (if v = ''checked''
      then if canEncode env HelveticaBold checkmark
           then Some (ops @ [EmbedFont HelveticaBold, DrawRectangle n absX absY checkSize checkSize,
                  DrawText n checkmark (js_add absX (js_mul checkSize (round_double 0.1)))
                    (js_add absY (js_mul checkSize (round_double 0.1)))
                    (js_mul checkSize (round_double 0.8)) HelveticaBold None])
           else None
      else Some (ops @ [EmbedFont HelveticaBold, DrawRectangle n absX absY checkSize checkSize]))"
    using stampField_checkbox [OF cb(1) assms(1,2), of checkSize pageWidth pageHeight absX absY env n ops]
      assms(3) by simp
  then show "stampField env n (pageWidth, pageHeight) sig ops =
      Some (ops @ [EmbedFont HelveticaBold, DrawRectangle n absX absY checkSize checkSize]
                @ (if v = ''checked''
                   then [DrawText n checkmark
                           (js_add absX (js_mul checkSize (round_double 0.1)))
                           (js_add absY (js_mul checkSize (round_double 0.1)))
                           (js_mul checkSize (round_double 0.8)) HelveticaBold None]
                   else []))"
    using cb(2) by auto
qed

lemma sample_coordinates:
  "js_mul (js_div 10 100) 612 = 4306567143673037 / 2 ^ 46"
  "js_mul (js_div 20 100) 612 = 4306567143673037 / 2 ^ 45"
  "js_mul (js_div 8 100) 792 = 4458563631096791 / 2 ^ 46"
  "js_sub (js_sub 792 (js_mul (js_div 80 100) 792)) (js_mul (js_div 8 100) 792)
     = 6687845446645185 / 2 ^ 46"
  by (simp_all add: js_mul_def js_div_def js_sub_def round_double_def ilog2_def
      ilog2_up.simps ilog2_down.simps pow2_def round_even_def Let_def)

lemma sample_decimals:
  "round_double 61.2 = 4306567143673037 / 2 ^ 46"
  "round_double 122.4 = 4306567143673037 / 2 ^ 45"
  "round_double 63.36 = 4458563631096791 / 2 ^ 46"
  "round_double 95.04 = 6687845446645187 / 2 ^ 46"
  by (simp_all add: round_double_def ilog2_def
      ilog2_up.simps ilog2_down.simps pow2_def round_even_def Let_def)

theorem embed_absolute_coordinates_witness:
  "stampField testEnv 0 (612, 792) sampleField [] =
     Some [EmbedImage Png pngMagic,
           DrawImage 0 Png pngMagic (round_double 61.2) (6687845446645185 / 2 ^ 46)
             (round_double 122.4) (round_double 63.36)]
   \<and> stampField testEnv 0 (612, 792) dateField [] =
     Some [EmbedFont Helvetica,
           DrawText 0 ''11/03/2026'' (round_double 61.2) (2123728699281899 / 2 ^ 44) 12
             Helvetica (Some (round_double 122.4))]
   \<and> stampField glyphEnv 0 (612, 792) checkboxField [] =
     Some [EmbedFont HelveticaBold,
           DrawRectangle 0 (round_double 61.2) (6687845446645185 / 2 ^ 46)
             (3566850904877433 / 2 ^ 46) (3566850904877433 / 2 ^ 46),
           DrawText 0 checkmark (1165813058540195 / 2 ^ 44) (55035394821351 / 2 ^ 39)
             (5706961447803893 / 2 ^ 47) HelveticaBold None]
   \<and> embedLog testEnv [(612, 792)] [sampleField] =
     Some [EmbedImage Png pngMagic,
           DrawImage 0 Png pngMagic (round_double 61.2) (6687845446645185 / 2 ^ 46)
             (round_double 122.4) (round_double 63.36)]"
proof -
  let ?x = "round_double 61.2 :: real" and ?y = "6687845446645185 / 2 ^ 46 :: real"
  let ?w = "round_double 122.4 :: real" and ?h = "round_double 63.36 :: real"
  let ?cs = "3566850904877433 / 2 ^ 46 :: real"
  have c: "?x = js_mul (js_div 10 100) 612" "?w = js_mul (js_div 20 100) 612"
    "?h = js_mul (js_div 8 100) 792"
    "?y = js_sub (js_sub 792 (js_mul (js_div 80 100) 792)) ?h"
    "?cs = js_mul (min ?w ?h) (round_double 0.8)"
    "12 = min (js_mul ?h (round_double 0.6)) 12"
    by (simp_all add: js_mul_def js_div_def js_sub_def js_add_def round_double_def ilog2_def
      ilog2_up.simps ilog2_down.simps pow2_def round_even_def Let_def)
  have e: "js_sub (js_add ?y (js_div ?h 2)) (js_div 12 2) = 2123728699281899 / 2 ^ 44"
    "js_add ?x (js_mul ?cs (round_double 0.1)) = 1165813058540195 / 2 ^ 44"
    "js_add ?y (js_mul ?cs (round_double 0.1)) = 55035394821351 / 2 ^ 39"
    "js_mul ?cs (round_double 0.8) = 5706961447803893 / 2 ^ 47"
    by (simp_all add: js_mul_def js_div_def js_sub_def js_add_def round_double_def ilog2_def
      ilog2_up.simps ilog2_down.simps pow2_def round_even_def Let_def)
  have d: "startsWith ''data:image/png;base64,iVBORw=='' ''data:image/''"
    "embedSignatureImage testEnv ''data:image/png;base64,iVBORw=='' = Some (Png, pngMagic)"
    "canEncode testEnv Helvetica ''11/03/2026''" "canEncode glyphEnv HelveticaBold checkmark"
    by (simp_all add: startsWith_def embedSignatureImage_def dataURLToBytes_def
        split_comma_1_def testEnv_def glyphEnv_def pngMagic_def)
  have 1: "stampField testEnv 0 (612, 792) sampleField [] =
     Some [EmbedImage Png pngMagic, DrawImage 0 Png pngMagic ?x ?y ?w ?h]"
    using embed_absolute_coordinates
      [where sig = sampleField and v = "''data:image/png;base64,iVBORw==''" and env = testEnv
         and pageWidth = 612 and pageHeight = 792 and absX = ?x and absY = ?y
         and absWidth = ?w and absHeight = ?h and checkSize = ?cs and fontSize = 12
         and fmt = Png and img = pngMagic and n = 0 and ops = "[]"] c d
    by (simp add: sampleField_def)
  have 2: "stampField testEnv 0 (612, 792) dateField [] =
     Some [EmbedFont Helvetica,
           DrawText 0 ''11/03/2026'' ?x (2123728699281899 / 2 ^ 44) 12 Helvetica (Some ?w)]"
    using embed_absolute_coordinates
      [where sig = dateField and v = "''11/03/2026''" and env = testEnv
         and pageWidth = 612 and pageHeight = 792 and absX = ?x and absY = ?y
         and absWidth = ?w and absHeight = ?h and checkSize = ?cs and fontSize = 12
         and n = 0 and ops = "[]"] c d e
    by (simp add: dateField_def sampleField_def)
  have 3: "stampField glyphEnv 0 (612, 792) checkboxField [] =
     Some [EmbedFont HelveticaBold, DrawRectangle 0 ?x ?y ?cs ?cs,
           DrawText 0 checkmark (1165813058540195 / 2 ^ 44) (55035394821351 / 2 ^ 39)
             (5706961447803893 / 2 ^ 47) HelveticaBold None]"
    using embed_absolute_coordinates
      [where sig = checkboxField and v = "''checked''" and env = glyphEnv
         and pageWidth = 612 and pageHeight = 792 and absX = ?x and absY = ?y
         and absWidth = ?w and absHeight = ?h and checkSize = ?cs and fontSize = 12
         and n = 0 and ops = "[]"] c d e
    by (simp add: checkboxField_def sampleField_def)
  have 4: "embedLog testEnv [(612, 792)] [sampleField] =
             stampField testEnv 0 (612, 792) sampleField []"
    by (simp add: embedLog_def signaturesByPage_def object_entries_def numberToString_def
        is_safe_integer_def showInt_def showNat.simps digit_char_def
        is_array_index_def index_of_key_def parseInt_def is_space_def is_digit_def
        digit_value_def digits_value_def sampleField_def testEnv_def
        split: option.splits)
  show ?thesis using 1 2 3 4 by simp
qed

text \<open>
  Claim C1 as stated gives \<open>95.04\<close> for \<open>absY\<close> of the example. The two subtractions are
  rounded, and the result for the field \<open>(10, 80, 20, 8)\<close> on the page of 612 by 792 is the
  double \<open>6687845446645185 / 2\<^sup>4\<^sup>6\<close>: two units in the last place below the double nearest
  to \<open>95.04\<close>, and so not \<open>95.04\<close> either.
\<close>

theorem example_absY_is_not_95_04:
  "f_x sampleField = 10 \<and> f_y sampleField = 80 \<and> f_width sampleField = 20
   \<and> f_height sampleField = 8
   \<and> stampField testEnv 0 (612, 792) sampleField [] =
       Some [EmbedImage Png pngMagic,
             DrawImage 0 Png pngMagic (4306567143673037 / 2 ^ 46) (6687845446645185 / 2 ^ 46)
               (4306567143673037 / 2 ^ 45) (4458563631096791 / 2 ^ 46)]
   \<and> round_double 95.04 = 6687845446645187 / 2 ^ 46
   \<and> (6687845446645185 / 2 ^ 46 :: real) \<noteq> round_double 95.04
   \<and> (6687845446645185 / 2 ^ 46 :: real) \<noteq> 95.04"
  by (simp add: stampField_def embedSignatureImage_def dataURLToBytes_def split_comma_1_def
      startsWith_def falsy_str_def testEnv_def pngMagic_def sampleField_def
      js_mul_def js_div_def js_sub_def round_double_def ilog2_def
      ilog2_up.simps ilog2_down.simps pow2_def round_even_def Let_def)

text \<open>
  Fields without a value leave the document as it was parsed: the result is that of the
  call on the empty field list.
\<close>

lemma embed_without_values:
  assumes "list_all (\<lambda>sig. falsy_str (f_value sig)) signatures"
    and "list_all (\<lambda>sig. parseInt (numberToString env (f_pageNumber sig)) \<noteq> None) signatures"
  shows "embedLog env pdfDoc signatures = Some []"
    and "embedSignaturesInPDF env pdfBytes signatures = embedSignaturesInPDF env pdfBytes []"
proof -
  have blank: "\<And>d. embedLog env d signatures = Some []"
    using assms by (simp add: embedLog_blank list_all_iff)
  show "embedLog env pdfDoc signatures = Some []" by (rule blank)
  show "embedSignaturesInPDF env pdfBytes signatures = embedSignaturesInPDF env pdfBytes []"
    by (simp add: embedSignaturesInPDF_def blank embedLog_Nil split: option.splits)
qed





text \<open>
  Claim C7: when the input bytes do not parse as a PDF document, the function fails with
  its error, whatever the fields are; no bytes are returned.
\<close>

theorem unparsable_document_fails:
  assumes "load env pdfBytes = None"
  shows "embedSignaturesInPDF env pdfBytes signatures
           = Inl (Error ''Failed to embed signatures in PDF'')"
  using assms by (simp add: embedSignaturesInPDF_def embedFailed_def)

theorem unparsable_document_fails_witness:
  "load testEnv [0x3C, 0x68, 0x74, 0x6D, 0x6C, 0x3E] = None
   \<and> embedSignaturesInPDF testEnv [0x3C, 0x68, 0x74, 0x6D, 0x6C, 0x3E] [sampleField]
       = Inl (Error ''Failed to embed signatures in PDF'')"
  using unparsable_document_fails [of testEnv "[0x3C, 0x68, 0x74, 0x6D, 0x6C, 0x3E]" "[sampleField]"]
  by (simp add: testEnv_def pdfHeader_def)

text \<open>
  Claim C9, as amended: a field whose page number is an integer of magnitude below
  \<open>2\<^sup>5\<^sup>3\<close> and is below 1 or above the number of pages is passed over: by itself it causes no
  operation and no failure, and the result of the call is that of the call on the field
  list without it.
\<close>

theorem field_on_missing_page_skipped:
  assumes "load env pdfBytes = Some pdfDoc"
    and "is_safe_integer (f_pageNumber f)"
    and "f_pageNumber f < 1 \<or> real (length (getPages env pdfDoc)) < f_pageNumber f"
  shows "embedLog env pdfDoc [f] = Some []
       \<and> embedLog env pdfDoc (xs @ f # ys) = embedLog env pdfDoc (xs @ ys)
       \<and> embedSignaturesInPDF env pdfBytes (xs @ f # ys)
           = embedSignaturesInPDF env pdfBytes (xs @ ys)"
proof -
  have sk: "skipped_key (length (getPages env pdfDoc)) (numberToString env (f_pageNumber f))"
    using assms(2,3) by (rule skipped_key_safe)
  have skip: "\<And>xs ys. embedLog env pdfDoc (xs @ f # ys) = embedLog env pdfDoc (xs @ ys)"
    using sk by (rule embedLog_skip)
  have "embedLog env pdfDoc ([] @ f # []) = embedLog env pdfDoc ([] @ [])" by (rule skip)
  then have 1: "embedLog env pdfDoc [f] = Some []" by (simp add: embedLog_Nil)
  have 2: "embedSignaturesInPDF env pdfBytes (xs @ f # ys)
           = embedSignaturesInPDF env pdfBytes (xs @ ys)"
    by (simp add: embedSignaturesInPDF_def assms(1) skip)
  show ?thesis using 1 2 skip by simp
qed

theorem field_on_missing_page_skipped_witness:
  "load testEnv samplePdf = Some [letterPage]
   \<and> length (getPages testEnv [letterPage]) = 1 \<and> f_pageNumber offPageField = 2
   \<and> is_safe_integer (f_pageNumber offPageField)
   \<and> embedLog testEnv [letterPage] [offPageField] = Some []
   \<and> embedLog testEnv [letterPage] [sampleField, offPageField, corruptField]
       = embedLog testEnv [letterPage] [sampleField, corruptField]
   \<and> embedSignaturesInPDF testEnv samplePdf [sampleField, offPageField, corruptField]
       = embedSignaturesInPDF testEnv samplePdf [sampleField, corruptField]"
proof -
  have h: "load testEnv samplePdf = Some [letterPage]"
    "length (getPages testEnv [letterPage]) = 1" "f_pageNumber offPageField = 2"
    "is_safe_integer (f_pageNumber offPageField)"
    by (simp_all add: testEnv_def samplePdf_def pdfHeader_def letterPage_def offPageField_def
        sampleField_def is_safe_integer_def)
  show ?thesis
    using field_on_missing_page_skipped
      [of testEnv samplePdf "[letterPage]" offPageField "[sampleField]" "[corruptField]"] h
    by simp
qed

text \<open>
  Claim C9 as stated covers every page number above the number of pages. The page number
  \<open>10\<^sup>2\<^sup>1\<close> has the key \<^verbatim>\<open>1e+21\<close>, of which \<^verbatim>\<open>parseInt\<close> reads the leading 1: on a document of
  one page the field is stamped on the first page.
\<close>

theorem huge_page_number_stamped_on_first_page:
  "f_pageNumber hugePageField = 10 ^ 21 \<and> length (getPages testEnv [letterPage]) = 1
   \<and> numberToString testEnv (10 ^ 21) = ''1e+21'' \<and> parseInt ''1e+21'' = Some 1
   \<and> embedLog testEnv [letterPage] [hugePageField] =
       Some [EmbedImage Png pngMagic,
             DrawImage 0 Png pngMagic (4306567143673037 / 2 ^ 46) (6687845446645185 / 2 ^ 46)
               (4306567143673037 / 2 ^ 45) (4458563631096791 / 2 ^ 46)]"
  by (simp add: embedLog_def signaturesByPage_def object_entries_def numberToString_def
      is_safe_integer_def showInt_def showNat.simps digit_char_def
      is_array_index_def index_of_key_def parseInt_def is_space_def is_digit_def digit_value_def
      digits_value_def
      stampField_def embedSignatureImage_def dataURLToBytes_def split_comma_1_def
      startsWith_def falsy_str_def testEnv_def pngMagic_def letterPage_def
      hugePageField_def sampleField_def
      js_mul_def js_div_def js_sub_def round_double_def ilog2_def
      ilog2_up.simps ilog2_down.simps pow2_def round_even_def Let_def)

section \<open>Properties of the signer validation\<close>

text \<open>The matcher accepts exactly the texts of the pattern.\<close>

lemma email_class_dot: "email_class (CHR ''.'')"
  by (simp add: email_class_def is_space_def)

lemma email_class_at: "\<not> email_class (CHR ''@'')"
  by (simp add: email_class_def)

lemma email_pattern_imp_test:
  assumes "email_pattern s"
  shows "emailRegex_test s"
proof -
  from assms obtain a b c where s: "s = a @ [CHR ''@''] @ b @ [CHR ''.''] @ c"
    and ne: "a \<noteq> []" "b \<noteq> []" "c \<noteq> []"
    and cl: "list_all email_class a" "list_all email_class b" "list_all email_class c"
    unfolding email_pattern_def by blast
  let ?dom = "b @ [CHR ''.''] @ c"
  have s': "s = a @ CHR ''@'' # ?dom" using s by simp
  have tw: "takeWhile email_class s = a"
    unfolding s' using cl(1) email_class_at by (simp add: takeWhile_tail list_all_iff)
  have dw: "dropWhile email_class s = CHR ''@'' # ?dom"
    unfolding s' using cl(1) email_class_at by (simp add: dropWhile_append3 list_all_iff)
  have all: "list_all email_class ?dom" using cl email_class_dot by simp
  obtain b0 b' where b: "b = b0 # b'" using ne(2) by (cases b) auto
  have "butlast (tl ?dom) = b' @ CHR ''.'' # butlast c"
    using ne(3) by (simp add: b butlast_append)
  then have dot: "CHR ''.'' \<in> set (butlast (tl ?dom))" by simp
  show ?thesis
    unfolding emailRegex_test_def tw dw using ne(1) all dot by simp
qed

lemma email_test_imp_pattern:
  assumes "emailRegex_test s"
  shows "email_pattern s"
proof -
  let ?a = "takeWhile email_class s"
  from assms have a_ne: "?a \<noteq> []" by (simp add: emailRegex_test_def)
  from assms obtain dom where dw: "dropWhile email_class s = CHR ''@'' # dom"
    and all: "list_all email_class dom" and dot: "CHR ''.'' \<in> set (butlast (tl dom))"
    by (auto simp: emailRegex_test_def split: list.splits)
  have s: "s = ?a @ CHR ''@'' # dom"
    using takeWhile_dropWhile_id [of email_class s] dw by simp
  from dot obtain d0 t where dom: "dom = d0 # t" by (cases dom) auto
  from dot dom have t_dot: "CHR ''.'' \<in> set (butlast t)" by simp
  then have t_ne: "t \<noteq> []" by auto
  from t_dot obtain p q where pq: "butlast t = p @ CHR ''.'' # q"
    by (auto dest: split_list)
  have t: "t = p @ CHR ''.'' # q @ [last t]"
    using append_butlast_last_id [OF t_ne] pq by simp
  have split: "s = ?a @ [CHR ''@''] @ (d0 # p) @ [CHR ''.''] @ (q @ [last t])"
    using s dom t by simp
  have "list_all email_class (d0 # p @ CHR ''.'' # q @ [last t])"
    using all dom t by simp
  then have cls: "list_all email_class (d0 # p)" "list_all email_class (q @ [last t])"
    by simp_all
  have "list_all email_class ?a" by (simp add: list_all_iff) (meson set_takeWhileD)
  then show ?thesis
    unfolding email_pattern_def using split a_ne cls by blast
qed

lemma emailRegex_test_iff: "emailRegex_test s \<longleftrightarrow> email_pattern s"
  using email_pattern_imp_test email_test_imp_pattern by blast

lemma checkSigners_None_iff: "checkSigners signers = None \<longleftrightarrow> list_all wellFormedSigner signers"
  by (induction signers) (auto simp: wellFormedSigner_def)

lemma checkSigners_message:
  "checkSigners signers = Some message \<Longrightarrow>
     message = ''All signers must have name and email'' \<or> message = ''All email addresses must be valid''"
  by (induction signers) (auto split: if_splits)

lemma remdups_length_distinct: "length xs \<noteq> length (remdups xs) \<longleftrightarrow> \<not> distinct xs"
  by (metis length_remdups_eq remdups_id_iff_distinct)

lemma validateSigners_wellFormed:
  assumes "list_all wellFormedSigner signers"
  shows "validateSigners signers =
     (if distinct (map (\<lambda>s. toLowerCase (signerEmail s)) signers) then None
      else Some ''Duplicate email addresses are not allowed'')"
proof -
  have "checkSigners signers = None" using assms by (simp add: checkSigners_None_iff)
  then show ?thesis
    by (simp add: validateSigners_def Let_def remdups_length_distinct del: length_map)
qed

lemma validateSigners_duplicate:
  assumes "\<not> distinct (map (\<lambda>s. toLowerCase (signerEmail s)) signers)"
  shows "\<exists>message. validateSigners signers = Some message"
proof (cases "checkSigners signers")
  case None
  then show ?thesis using assms
    by (simp add: validateSigners_def Let_def remdups_length_distinct del: length_map)
next
  case (Some message)
  then show ?thesis by (simp add: validateSigners_def)
qed

text \<open>
  Claim C8, as amended: a signer list in which two signers have the same email address up
  to letter case fails validation, and \<^verbatim>\<open>handleSave\<close> stops with the message before it
  sends a request; the message is the duplicate-email one when every signer is well formed,
  and one of the two messages of the loop over the signers when a signer is not. A list of
  well-formed signers with different emails passes.
\<close>

theorem signer_emails_validated:
  "(\<not> distinct (map (\<lambda>s. toLowerCase (signerEmail s)) signers) \<longrightarrow>
      (\<exists>message. validateSigners signers = Some message
                  \<and> handleSave persist signers sequentialSigning = Inl message))
   \<and> (list_all wellFormedSigner signers \<longrightarrow>
        validateSigners signers =
          (if distinct (map (\<lambda>s. toLowerCase (signerEmail s)) signers) then None
           else Some ''Duplicate email addresses are not allowed''))
   \<and> (list_all wellFormedSigner signers
        \<or> validateSigners signers = Some ''All signers must have name and email''
        \<or> validateSigners signers = Some ''All email addresses must be valid'')"
proof (intro conjI impI)
  assume "\<not> distinct (map (\<lambda>s. toLowerCase (signerEmail s)) signers)"
  then obtain message where "validateSigners signers = Some message"
    using validateSigners_duplicate by blast
  then show "\<exists>message. validateSigners signers = Some message
                  \<and> handleSave persist signers sequentialSigning = Inl message"
    by (simp add: handleSave_def)
next
  assume "list_all wellFormedSigner signers"
  then show "validateSigners signers =
          (if distinct (map (\<lambda>s. toLowerCase (signerEmail s)) signers) then None
           else Some ''Duplicate email addresses are not allowed'')"
    by (rule validateSigners_wellFormed)
next
  show "list_all wellFormedSigner signers
        \<or> validateSigners signers = Some ''All signers must have name and email''
        \<or> validateSigners signers = Some ''All email addresses must be valid''"
  proof (cases "checkSigners signers")
    case None
    then show ?thesis by (simp add: checkSigners_None_iff)
  next
    case (Some message)
    then show ?thesis using checkSigners_message [OF Some] by (auto simp: validateSigners_def)
  qed
qed

theorem signer_emails_validated_witness:
  "toLowerCase (signerEmail alice) = toLowerCase (signerEmail aliceAgain)
   \<and> validateSigners [alice, aliceAgain] = Some ''Duplicate email addresses are not allowed''
   \<and> handleSave Pair [alice, aliceAgain] False = Inl ''Duplicate email addresses are not allowed''
   \<and> list_all wellFormedSigner [alice, bob]
   \<and> distinct (map (\<lambda>s. toLowerCase (signerEmail s)) [alice, bob])
   \<and> validateSigners [alice, bob] = None
   \<and> handleSave Pair [alice, bob] False = Inr ([alice, bob], False)
   \<and> toLowerCase (signerEmail alice) = toLowerCase (signerEmail nameless)
   \<and> validateSigners [alice, nameless] = Some ''All signers must have name and email''
   \<and> handleSave Pair [alice, nameless] False = Inl ''All signers must have name and email''"
  using signer_emails_validated [of "[alice, aliceAgain]" Pair False]
    signer_emails_validated [of "[alice, bob]" Pair False]
    signer_emails_validated [of "[alice, nameless]" Pair False]
  by (simp add: validateSigners_def toLowerCase_def lower_char_def emailRegex_test_def
      email_class_def is_space_def char_of_def bit_Suc_0_iff
      handleSave_def wellFormedSigner_def falsy_str_def alice_def bob_def aliceAgain_def
      nameless_def)

text \<open>
  Claim C8 as stated names the duplicate-email error for every list with a repeated email.
  The loop over the signers runs first: with a signer without a name in the list, the
  message is the one about name and email.
\<close>

theorem duplicate_email_other_message:
  "toLowerCase (signerEmail nameless) = toLowerCase (signerEmail aliceAgain)
   \<and> validateSigners [nameless, aliceAgain] = Some ''All signers must have name and email''"
  by (simp add: validateSigners_def toLowerCase_def lower_char_def emailRegex_test_def
      email_class_def is_space_def char_of_def bit_Suc_0_iff
      alice_def aliceAgain_def nameless_def)

end
